theory Spec2Isabelle
  imports Complex_Main "HOL-Library.Multiset" "HOL-Library.Sublist"
begin

section \<open>Strings\<close>

text \<open>
  A JavaScript string holding Unicode text is modelled as a \<^typ>\<open>string\<close>: the bytes of
  the text's UTF-8 encoding.

  \<open>String.prototype.trim\<close> removes from both ends the white space and the line
  terminators of ECMAScript: U+0009 to U+000D, U+0020, U+00A0, U+1680, U+2000 to U+200A,
  U+2028, U+2029, U+202F, U+205F, U+3000 and U+FEFF. \<open>white_space\<close> lists their
  encodings; \<open>strip ws s\<close> removes from the start of \<open>s\<close> every leading occurrence of a
  member of \<open>ws\<close>.

  \<open>String.prototype.toLowerCase\<close> is not defined here: its Unicode tables belong to the
  engine, and what calls it takes it as a parameter (the field \<open>toLowerCase\<close> of the world,
  below). \<open>ascii_lower\<close> is what it does on ASCII text: \<open>A\<close>..\<open>Z\<close> become \<open>a\<close>..\<open>z\<close>.
\<close>

definition upper_lower :: "(char \<times> char) list" where
  "upper_lower = zip ''ABCDEFGHIJKLMNOPQRSTUVWXYZ'' ''abcdefghijklmnopqrstuvwxyz''"

definition toLowerChar :: "char \<Rightarrow> char" where
  "toLowerChar c = (case map_of upper_lower c of Some l \<Rightarrow> l | None \<Rightarrow> c)"

definition ascii_lower :: "string \<Rightarrow> string" where
  "ascii_lower s = map toLowerChar s"

definition white_space :: "string list" where
  "white_space =
     [[CHR 0x09], [CHR 0x0A], [CHR 0x0B], [CHR 0x0C], [CHR 0x0D], [CHR 0x20],
      [CHR 0xC2, CHR 0xA0], [CHR 0xE1, CHR 0x9A, CHR 0x80],
      [CHR 0xE2, CHR 0x80, CHR 0x80], [CHR 0xE2, CHR 0x80, CHR 0x81],
      [CHR 0xE2, CHR 0x80, CHR 0x82], [CHR 0xE2, CHR 0x80, CHR 0x83],
      [CHR 0xE2, CHR 0x80, CHR 0x84], [CHR 0xE2, CHR 0x80, CHR 0x85],
      [CHR 0xE2, CHR 0x80, CHR 0x86], [CHR 0xE2, CHR 0x80, CHR 0x87],
      [CHR 0xE2, CHR 0x80, CHR 0x88], [CHR 0xE2, CHR 0x80, CHR 0x89],
      [CHR 0xE2, CHR 0x80, CHR 0x8A], [CHR 0xE2, CHR 0x80, CHR 0xA8],
      [CHR 0xE2, CHR 0x80, CHR 0xA9], [CHR 0xE2, CHR 0x80, CHR 0xAF],
      [CHR 0xE2, CHR 0x81, CHR 0x9F], [CHR 0xE3, CHR 0x80, CHR 0x80],
      [CHR 0xEF, CHR 0xBB, CHR 0xBF]]"

definition starts_with :: "string \<Rightarrow> string \<Rightarrow> bool" where
  "starts_with w s = (w \<noteq> [] \<and> take (length w) s = w)"

function strip :: "string list \<Rightarrow> string \<Rightarrow> string" where
  "strip ws s =
     (case find (\<lambda>w. starts_with w s) ws of
        None \<Rightarrow> s
      | Some w \<Rightarrow> strip ws (drop (length w) s))"
  by pat_completeness auto
termination
proof (relation "measure (\<lambda>p. length (snd p))")
  show "wf (measure (\<lambda>p. length (snd p)))"
    by simp
next
  fix ws :: "string list" and s w :: string
  assume "find (\<lambda>w. starts_with w s) ws = Some w"
  then have "starts_with w s"
    by (auto simp: find_Some_iff)
  then have "w \<noteq> []" and "length w \<le> length s"
    by (auto simp: starts_with_def) (metis length_take min.cobounded1)
  then show "((ws, drop (length w) s), (ws, s)) \<in> measure (\<lambda>p. length (snd p))"
    by (cases w) auto
qed

declare strip.simps [simp del]

definition trimStart :: "string \<Rightarrow> string" where
  "trimStart s = strip white_space s"

definition trimEnd :: "string \<Rightarrow> string" where
  "trimEnd s = rev (strip (map rev white_space) (rev s))"

definition trim :: "string \<Rightarrow> string" where
  "trim s = trimEnd (trimStart s)"

section \<open>Query Responder: the classification of a turn\<close>

text \<open>
  \<^verbatim>\<open>const isQuestion = /^(how|what|show|list|sum|calculate|analyze|total|spent)/i.test(userText);\<close>

  The expression is anchored at the start of the text and has the flag \<open>i\<close>: an
  alternative matches when each of its characters equals the character of the text at the
  same place, both canonicalised. The alternatives are ASCII letters, and the
  canonicalisation never maps a character outside ASCII to an ASCII one: a letter of an
  alternative matches exactly its two ASCII cases, which is equality under \<open>toLowerChar\<close>.
\<close>

definition lead_words :: "string list" where
  "lead_words =
     [''how'', ''what'', ''show'', ''list'', ''sum'', ''calculate'', ''analyze'', ''total'',
      ''spent'']"

fun matchesAt :: "string \<Rightarrow> string \<Rightarrow> bool" where
  "matchesAt [] t = True"
| "matchesAt (p # ps) [] = False"
| "matchesAt (p # ps) (c # cs) = (toLowerChar c = toLowerChar p \<and> matchesAt ps cs)"

definition isQuestion :: "string \<Rightarrow> bool" where
  "isQuestion userText = list_ex (\<lambda>w. matchesAt w userText) lead_words"

section \<open>Data model (types.ts)\<close>

text \<open>
  \<^verbatim>\<open>createdAt?: Timestamp | any\<close>: an object with the fields \<open>seconds\<close> and
  \<open>nanoseconds\<close> and, when it has one, the accessor \<open>toMillis\<close>. Two accessors occur:
  the one of the Firestore SDK's \<open>Timestamp\<close>, computed from the two fields, and the one of
  the object literal that \<open>addExpense\<close> builds in local mode, \<^verbatim>\<open>() => Date.now()\<close>,
  which reads the clock when it is called. Arithmetic on times is exact.
\<close>

datatype accessor = SdkMillis | ClockMillis

record Timestamp =
  seconds :: int
  nanoseconds :: int
  toMillis :: "accessor option"

definition call_toMillis :: "int \<Rightarrow> Timestamp \<Rightarrow> accessor \<Rightarrow> rat" where
  "call_toMillis now t f =
     (case f of
        SdkMillis \<Rightarrow> of_int (seconds t) * 1000 + of_int (nanoseconds t) / 1000000
      | ClockMillis \<Rightarrow> of_int now)"

text \<open>
  \<open>amount\<close> is a JavaScript number. The model leaves the type of numbers open (\<open>'n\<close>),
  with the zero and the addition the code uses.
\<close>

record 'n Expense =
  id' :: "string option"
  item :: string
  amount :: 'n
  category :: string
  createdAt :: "Timestamp option"
  originalText :: "string option"

datatype role = User | Bot

datatype message_id = IdString string | IdNumber int

record 'n Message =
  msg_id :: message_id
  msg_type :: role
  msg_text :: string
  msg_image :: "string option"
  msg_data :: "'n Expense list option"

datatype AgentStatus = idle | vision | parsing | ledger | summary

section \<open>Persistence Adapter (services/firebaseService.ts)\<close>

subsection \<open>The local storage slot\<close>

text \<open>
  The item of \<open>localStorage\<close> under \<open>LOCAL_STORAGE_KEY\<close>: absent, a text that
  \<open>JSON.parse\<close> rejects, or the text \<open>JSON.stringify(data)\<close> of a list of records,
  written \<open>Saved data\<close>. \<open>JSON.stringify\<close> leaves out every property whose value is a
  function, so reading the item back gives each record without the accessor of its
  timestamp (\<open>json\<close>). Writes to the slot are taken to succeed.
\<close>

datatype 'a slot = Absent | Unparsable | Saved 'a

definition json :: "'n Expense \<Rightarrow> 'n Expense" where
  "json e = e\<lparr>createdAt := map_option (\<lambda>t. t\<lparr>toMillis := None\<rparr>) (createdAt e)\<rparr>"

definition getLocalData :: "'n Expense list slot \<Rightarrow> 'n Expense list" where
  "getLocalData raw = (case raw of Saved data \<Rightarrow> map json data | _ \<Rightarrow> [])"

definition saveLocalData :: "'n Expense list \<Rightarrow> 'n Expense list slot" where
  "saveLocalData data = Saved data"

subsection \<open>The document store\<close>

text \<open>
  Modelled from the spec: the document store of the Firestore SDK, which is not part of
  the repository. For each user id it holds the documents of the collection
  \<open>artifacts/APP_ID/users/uid/expenses\<close>, each a document id with its data, in the order
  a snapshot lists them.
\<close>

type_synonym 'a collection = "(string \<times> 'a) list"

text \<open>
  Modelled from the spec: \<open>addDoc\<close> of the Firestore SDK (insert with server timestamp).
  \<open>reply\<close> is the store's answer: \<open>None\<close> when the request is rejected, else the id the
  store chose for the new document and the timestamp the server wrote for the
  \<open>serverTimestamp()\<close> placeholder (\<open>None\<close> while it is pending). The result says whether
  the promise resolved.
\<close>

definition addDoc ::
  "(string \<times> (int \<times> int) option) option \<Rightarrow> 'n Expense \<Rightarrow> 'n Expense collection \<Rightarrow>
   bool \<times> 'n Expense collection" where
  "addDoc reply data docs =
     (case reply of
        None \<Rightarrow> (False, docs)
      | Some (doc_id, stamp) \<Rightarrow>
          (True, docs @ [(doc_id, data\<lparr>createdAt := map_option (\<lambda>(s, n).
             \<lparr>seconds = s, nanoseconds = n, toMillis = Some SdkMillis\<rparr>) stamp\<rparr>)]))"

text \<open>
  Modelled from the spec: \<open>deleteDoc\<close> of the Firestore SDK (delete by id; a no-op,
  without error, if the id is absent). \<open>accepted\<close> is false when the transport rejects
  the request.
\<close>

definition deleteDoc :: "bool \<Rightarrow> string \<Rightarrow> 'a collection \<Rightarrow> bool \<times> 'a collection" where
  "deleteDoc accepted doc_id docs =
     (if accepted then (True, filter (\<lambda>d. fst d \<noteq> doc_id) docs) else (False, docs))"

subsection \<open>The adapter\<close>

text \<open>
  \<open>IS_FIREBASE_CONFIGURED && db\<close> is fixed when the module is loaded: the backend is either
  the local slot or the document store.
\<close>

datatype 'a backend = LocalStorage "'a list slot" | Firestore "string \<Rightarrow> 'a collection"

definition sort_desc :: "('a \<Rightarrow> 'k::linordered_ab_group_add) \<Rightarrow> 'a list \<Rightarrow> 'a list" where
  "sort_desc time xs = sort_key (\<lambda>a. - time a) xs"

definition timeCloud :: "int \<Rightarrow> 'n Expense \<Rightarrow> rat" where
  "timeCloud now a =
     (case createdAt a of
        None \<Rightarrow> 0
      | Some t \<Rightarrow> (case toMillis t of None \<Rightarrow> 0 | Some f \<Rightarrow> call_toMillis now t f))"

definition timeLocal :: "'n Expense \<Rightarrow> int" where
  "timeLocal a =
     (case createdAt a of
        None \<Rightarrow> 0
      | Some t \<Rightarrow> if seconds t \<noteq> 0 then seconds t * 1000 else 0)"

definition snapshot_doc :: "string \<times> 'n Expense \<Rightarrow> 'n Expense" where
  "snapshot_doc d =
     (case d of (doc_id, data) \<Rightarrow>
        data\<lparr>id' := (case id' data of None \<Rightarrow> Some doc_id | Some i \<Rightarrow> Some i)\<rparr>)"

text \<open>
  \<open>subscribeToExpenses now uid b\<close> is the list the callback receives when it is invoked
  on the backend \<open>b\<close> (for the local slot: at the initial load and after every
  \<open>local-storage-update\<close> event; for the document store: at every snapshot). \<open>now\<close> is
  the clock at that moment. \<open>Array.prototype.sort\<close> is stable, so with the comparator
  \<open>timeB - timeA\<close> it is the stable sort by descending time.
\<close>

definition subscribeToExpenses :: "int \<Rightarrow> string \<Rightarrow> 'n Expense backend \<Rightarrow> 'n Expense list" where
  "subscribeToExpenses now uid b =
     (case b of
        Firestore db \<Rightarrow> sort_desc (timeCloud now) (map snapshot_doc (db uid))
      | LocalStorage raw \<Rightarrow> sort_desc timeLocal (getLocalData raw))"

text \<open>
  \<open>addExpense uuid now reply uid expense originalText b\<close>: \<open>uuid\<close> is what
  \<open>crypto.randomUUID()\<close> returns and \<open>now\<close> what \<open>Date.now()\<close> returns in this call,
  \<open>reply\<close> the document store's answer to \<open>addDoc\<close>. The result says whether the
  promise resolved, with the backend after the call.
\<close>

definition addExpense ::
  "string \<Rightarrow> int \<Rightarrow> (string \<times> (int \<times> int) option) option \<Rightarrow>
   string \<Rightarrow> 'n Expense \<Rightarrow> string \<Rightarrow> 'n Expense backend \<Rightarrow> bool \<times> 'n Expense backend" where
  "addExpense uuid now reply uid expense originalText' b =
     (case b of
        Firestore db \<Rightarrow>
          (case addDoc reply (expense\<lparr>originalText := Some originalText'\<rparr>) (db uid) of
             (resolved, docs) \<Rightarrow> (resolved, Firestore (db(uid := docs))))
      | LocalStorage raw \<Rightarrow>
          (let current = getLocalData raw;
               newExpense = expense\<lparr>id' := Some uuid, originalText := Some originalText',
                 createdAt := Some \<lparr>seconds = now div 1000, nanoseconds = 0,
                                    toMillis = Some ClockMillis\<rparr>\<rparr>
           in (True, LocalStorage (saveLocalData (current @ [newExpense])))))"

definition removeExpense ::
  "bool \<Rightarrow> string \<Rightarrow> string \<Rightarrow> 'n Expense backend \<Rightarrow> bool \<times> 'n Expense backend" where
  "removeExpense accepted uid expenseId b =
     (case b of
        Firestore db \<Rightarrow>
          (case deleteDoc accepted expenseId (db uid) of
             (resolved, docs) \<Rightarrow> (resolved, Firestore (db(uid := docs))))
      | LocalStorage raw \<Rightarrow>
          (let current = getLocalData raw;
               filtered = filter (\<lambda>e. id' e \<noteq> Some expenseId) current
           in (True, LocalStorage (saveLocalData filtered))))"

section \<open>Memory context (services/geminiService.ts)\<close>

text \<open>
  The functions of this section take \<open>String.prototype.toLowerCase\<close> as their first
  argument, \<open>lower\<close>.

  \<open>habitMap\<close> is a plain object used as a dictionary. The model keeps its own properties
  in creation order. Reading \<open>habitMap[key]\<close> finds an own property or, failing that, a
  member of \<open>Object.prototype\<close> (a function or an object: truthy); only the truth value
  of the read is used. Writing creates the property at the end, or overwrites it where it
  is; writing a string to \<open>__proto__\<close> changes nothing. \<open>Object.entries\<close> lists the own
  properties whose key is an array index (the canonical numeral of an integer below
  \<open>2^32 - 1\<close>) first, in ascending numeric order, then the others in creation order.
\<close>

type_synonym js_object = "(string \<times> string) list"

definition Object_prototype :: "string list" where
  "Object_prototype =
     [''constructor'', ''__defineGetter__'', ''__defineSetter__'', ''hasOwnProperty'',
      ''__lookupGetter__'', ''__lookupSetter__'', ''isPrototypeOf'', ''propertyIsEnumerable'',
      ''toString'', ''valueOf'', ''__proto__'', ''toLocaleString'']"

definition truthy_get :: "js_object \<Rightarrow> string \<Rightarrow> bool" where
  "truthy_get obj key =
     (case map_of obj key of Some v \<Rightarrow> v \<noteq> [] | None \<Rightarrow> key \<in> set Object_prototype)"

definition js_set :: "js_object \<Rightarrow> string \<Rightarrow> string \<Rightarrow> js_object" where
  "js_set obj key v =
     (if key = ''__proto__'' then obj
      else (case map_of obj key of
              Some _ \<Rightarrow> map (\<lambda>p. if fst p = key then (key, v) else p) obj
            | None \<Rightarrow> obj @ [(key, v)]))"

definition digit_value :: "char \<Rightarrow> nat" where
  "digit_value c = length (takeWhile (\<lambda>d. d \<noteq> c) ''0123456789'')"

definition numeral_value :: "string \<Rightarrow> nat" where
  "numeral_value k = foldl (\<lambda>n c. 10 * n + digit_value c) 0 k"

definition is_array_index :: "string \<Rightarrow> bool" where
  "is_array_index k =
     (k \<noteq> [] \<and> list_all (\<lambda>c. c \<in> set ''0123456789'') k \<and>
      (k = ''0'' \<or> hd k \<noteq> CHR ''0'') \<and> numeral_value k < 4294967295)"

definition Object_entries :: "js_object \<Rightarrow> (string \<times> string) list" where
  "Object_entries obj =
     sort_key (\<lambda>p. numeral_value (fst p)) (filter (\<lambda>p. is_array_index (fst p)) obj) @
     filter (\<lambda>p. \<not> is_array_index (fst p)) obj"

fun join :: "string \<Rightarrow> string list \<Rightarrow> string" where
  "join sep [] = []"
| "join sep [x] = x"
| "join sep (x # y # r) = x @ sep @ join sep (y # r)"

definition habit_step :: "(string \<Rightarrow> string) \<Rightarrow> 'n Expense \<Rightarrow> js_object \<Rightarrow> js_object" where
  "habit_step lower e habitMap =
     (if item e \<noteq> [] \<and> category e \<noteq> []
      then (let key = trim (lower (item e))
            in if \<not> truthy_get habitMap key then js_set habitMap key (category e)
               else habitMap)
      else habitMap)"

definition habits :: "(string \<Rightarrow> string) \<Rightarrow> 'n Expense list \<Rightarrow> js_object" where
  "habits lower expenses = fold (habit_step lower) expenses []"

definition memory_entries ::
  "(string \<Rightarrow> string) \<Rightarrow> 'n Expense list \<Rightarrow> (string \<times> string) list" where
  "memory_entries lower expenses = take 50 (Object_entries (habits lower expenses))"

definition render_entry :: "string \<times> string \<Rightarrow> string" where
  "render_entry p = [CHR 0x22] @ fst p @ [CHR 0x22] @ '': '' @ [CHR 0x22] @ snd p @ [CHR 0x22]"

definition buildMemoryContext :: "(string \<Rightarrow> string) \<Rightarrow> 'n Expense list \<Rightarrow> string" where
  "buildMemoryContext lower expenses =
     join '', '' (map render_entry (memory_entries lower expenses))"

section \<open>The agents (services/geminiService.ts)\<close>

text \<open>
  What lies outside the program during one pass of \<open>handleSend\<close>: whether
  \<open>process.env.API_KEY\<close> is set, the outcome of reading the image file, the answers of
  the remote model to the three kinds of request, the values \<open>crypto.randomUUID()\<close> and
  \<open>Date.now()\<close> return and the document store's answer to \<open>addDoc\<close> in the \<open>k\<close>-th call
  of \<open>addExpense\<close>, the clock when the two messages are built, and two functions of
  the engine: the rendering of a number by \<open>toLocaleString\<close> and the lower-casing of a
  string by \<open>toLowerCase\<close>. Every request is taken to settle: it resolves or rejects.
\<close>

datatype File = File (file_type: string) (file_content: string)

datatype 'a generated = Rejects | NoText | NotJson | Parsed 'a

datatype 'n request =
    VisionRequest string string
  | ParsingRequest string string
  | SummaryRequest string "(string \<times> 'n \<times> string) list"

record 'n World =
  API_KEY :: bool
  fileToBase64 :: "File \<Rightarrow> string option"
  generateVision :: "string \<Rightarrow> string \<Rightarrow> 'n Expense list generated"
  generateParsing :: "string \<Rightarrow> string \<Rightarrow> 'n Expense list generated"
  generateSummary :: "string \<Rightarrow> (string \<times> 'n \<times> string) list \<Rightarrow> string option"
  randomUUID :: "nat \<Rightarrow> string"
  Date_now :: "nat \<Rightarrow> int"
  addDoc_reply :: "nat \<Rightarrow> (string \<times> (int \<times> int) option) option"
  sent_at :: int
  replied_at :: int
  toLocaleString :: "'n \<Rightarrow> string"
  toLowerCase :: "string \<Rightarrow> string"

text \<open>Each agent returns its result with the list of requests it sent to the remote model.\<close>

definition runParsingAgent ::
  "'n World \<Rightarrow> string \<Rightarrow> string \<Rightarrow> 'n Expense list \<times> 'n request list" where
  "runParsingAgent w text' memoryContext =
     (if \<not> API_KEY w then ([], [])
      else ((case generateParsing w text' memoryContext of Parsed xs \<Rightarrow> xs | _ \<Rightarrow> []),
            [ParsingRequest text' memoryContext]))"

definition runVisionAgent ::
  "'n World \<Rightarrow> string \<Rightarrow> string \<Rightarrow> 'n Expense list \<times> 'n request list" where
  "runVisionAgent w base64Image mimeType =
     (if \<not> API_KEY w then ([], [])
      else ((case generateVision w base64Image mimeType of Parsed xs \<Rightarrow> xs | _ \<Rightarrow> []),
            [VisionRequest base64Image mimeType]))"

definition runSummaryAgent ::
  "'n World \<Rightarrow> string \<Rightarrow> 'n Expense list \<Rightarrow> string \<times> 'n request list" where
  "runSummaryAgent w queryText expenseData =
     (if \<not> API_KEY w then (''API Key missing.'', [])
      else (let dataSummary = map (\<lambda>e. (item e, amount e, category e)) (take 100 expenseData)
            in ((case generateSummary w queryText dataSummary of
                   None \<Rightarrow> ''Service temporarily unavailable.''
                 | Some t \<Rightarrow> if t = [] then ''I couldn't generate a summary.'' else t),
                [SummaryRequest queryText dataSummary])))"

section \<open>Extraction Orchestrator (handleSend)\<close>

text \<open>
  The state a pass reads and writes: the React state of \<open>App\<close> (\<open>user\<close> is \<open>user?.uid\<close>),
  the persistence backend, and two logs kept for the statements below: every value passed
  to \<open>setAgentStatus\<close>, and every request sent to the remote model. \<open>expenses\<close> is the
  value the closure of \<open>handleSend\<close> captured; the subscription refreshes it between
  passes.
\<close>

record 'n State =
  user :: "string option"
  expenses :: "'n Expense list"
  messages :: "'n Message list"
  input :: string
  selectedImage :: "File option"
  imagePreview :: "string option"
  isProcessing :: bool
  agentStatus :: AgentStatus
  store :: "'n Expense backend"
  statuses :: "AgentStatus list"
  requests :: "'n request list"

definition CURRENCY_SYMBOL :: string where
  "CURRENCY_SYMBOL = [CHR 0xC3, CHR 0xA2, CHR 0xE2, CHR 0x80, CHR 0x9A, CHR 0xC2, CHR 0xB9]"

definition setAgentStatus :: "AgentStatus \<Rightarrow> 'n State \<Rightarrow> 'n State" where
  "setAgentStatus st s = s\<lparr>agentStatus := st, statuses := statuses s @ [st]\<rparr>"

definition post :: "'n Message \<Rightarrow> 'n State \<Rightarrow> 'n State" where
  "post m s = s\<lparr>messages := messages s @ [m]\<rparr>"

definition sent :: "'n request list \<Rightarrow> 'n State \<Rightarrow> 'n State" where
  "sent rs s = s\<lparr>requests := requests s @ rs\<rparr>"

definition botMessage :: "'n World \<Rightarrow> string \<Rightarrow> 'n Expense list option \<Rightarrow> 'n Message" where
  "botMessage w t d =
     \<lparr>msg_id = IdNumber (replied_at w + 1), msg_type = Bot, msg_text = t, msg_image = None,
      msg_data = d\<rparr>"

text \<open>
  Step A. \<open>Inl\<close> is the state in which the promise of \<open>fileToBase64\<close> rejected (the
  exception reaches the \<open>catch\<close>); \<open>Inr\<close> is the list \<open>extractedExpenses\<close> after the step.
\<close>

definition vision_step ::
  "'n World \<Rightarrow> File option \<Rightarrow> 'n State \<Rightarrow> 'n State + 'n Expense list \<times> 'n State" where
  "vision_step w userImage s =
     (case userImage of
        None \<Rightarrow> Inr ([], s)
      | Some f \<Rightarrow>
          (let s1 = setAgentStatus vision s
           in case fileToBase64 w f of
                None \<Rightarrow> Inl s1
              | Some base64 \<Rightarrow>
                  (case runVisionAgent w base64 (file_type f) of
                     (visionResults, rs) \<Rightarrow> Inr (visionResults, sent rs s1))))"

text \<open>Step B, the branch of a question: it ends the pass with \<open>return\<close>.\<close>

definition summary_step :: "'n World \<Rightarrow> string \<Rightarrow> 'n State \<Rightarrow> 'n State" where
  "summary_step w userText s =
     (let s1 = setAgentStatus summary s
      in case runSummaryAgent w userText (expenses s1) of
           (answer, rs) \<Rightarrow>
             setAgentStatus idle
               ((post (botMessage w answer None) (sent rs s1))\<lparr>isProcessing := False\<rparr>))"

text \<open>Step B, the other branch: the results of the parsing agent.\<close>

definition parsing_step ::
  "'n World \<Rightarrow> string \<Rightarrow> 'n State \<Rightarrow> 'n Expense list \<times> 'n State" where
  "parsing_step w userText s =
     (let s1 = setAgentStatus parsing s;
          memoryContext = buildMemoryContext (toLowerCase w) (expenses s1)
      in case runParsingAgent w userText memoryContext of
           (textResults, rs) \<Rightarrow> (textResults, sent rs s1))"

text \<open>
  \<open>Promise.all(extractedExpenses.map(exp => addExpense(uid, exp, ...)))\<close>: every call is
  issued, in the order of the list, whatever becomes of the others; the joined promise
  resolves when all of them do. \<open>k\<close> counts the calls.
\<close>

fun commit_all ::
  "'n World \<Rightarrow> string \<Rightarrow> string \<Rightarrow> nat \<Rightarrow> 'n Expense list \<Rightarrow> 'n Expense backend \<Rightarrow>
   bool \<times> 'n Expense backend" where
  "commit_all w uid t k [] b = (True, b)"
| "commit_all w uid t k (e # es) b =
     (case addExpense (randomUUID w k) (Date_now w k) (addDoc_reply w k) uid e t b of
        (resolved, b1) \<Rightarrow>
          (case commit_all w uid t (Suc k) es b1 of
             (others, b2) \<Rightarrow> (resolved \<and> others, b2)))"

datatype completion = Normal | Return | Throw

text \<open>Step C and the two messages for an empty list.\<close>

definition ledger_step ::
  "'n::{zero,plus} World \<Rightarrow> string \<Rightarrow> File option \<Rightarrow> 'n Expense list \<Rightarrow> 'n State \<Rightarrow>
   completion \<times> 'n State" where
  "ledger_step w userText userImage extractedExpenses s =
     (if extractedExpenses \<noteq> []
      then (let s1 = setAgentStatus ledger s;
                uid = (case user s1 of
                         None \<Rightarrow> ''local_user''
                       | Some u \<Rightarrow> if u = [] then ''local_user'' else u)
            in case commit_all w uid (if userText = [] then ''Receipt Scan'' else userText) 0
                      extractedExpenses (store s1) of
                 (resolved, b) \<Rightarrow>
                   if \<not> resolved then (Throw, s1\<lparr>store := b\<rparr>)
                   else (let total = foldl (\<lambda>sum' item'. sum' + amount item') 0 extractedExpenses
                         in (Normal,
                             post (botMessage w
                                    (''Ledger updated. Total: '' @ CURRENCY_SYMBOL @ '' '' @
                                     toLocaleString w total)
                                    (Some extractedExpenses))
                               (s1\<lparr>store := b\<rparr>))))
      else if userText = [] \<and> userImage \<noteq> None
      then (Normal,
            post (botMessage w ''I couldn't identify any clear transactions in that image.'' None) s)
      else if userText \<noteq> [] \<and> userImage = None
      then (Normal, post (botMessage w ''I couldn't detect a valid expense transaction.'' None) s)
      else (Normal, s))"

definition try_block ::
  "'n::{zero,plus} World \<Rightarrow> string \<Rightarrow> File option \<Rightarrow> 'n State \<Rightarrow> completion \<times> 'n State" where
  "try_block w userText userImage s =
     (case vision_step w userImage s of
        Inl s1 \<Rightarrow> (Throw, s1)
      | Inr (visionResults, s1) \<Rightarrow>
          (if trim userText \<noteq> []
           then (if isQuestion userText then (Return, summary_step w userText s1)
                 else (case parsing_step w userText s1 of
                         (textResults, s2) \<Rightarrow>
                           ledger_step w userText userImage (visionResults @ textResults) s2))
           else ledger_step w userText userImage visionResults s1))"

definition catch_block :: "'n World \<Rightarrow> 'n State \<Rightarrow> 'n State" where
  "catch_block w s =
     post (botMessage w ''System encountered an error processing your request.'' None) s"

definition finally_block :: "'n State \<Rightarrow> 'n State" where
  "finally_block s = setAgentStatus idle (s\<lparr>isProcessing := False\<rparr>)"

definition clearImage :: "'n State \<Rightarrow> 'n State" where
  "clearImage s = s\<lparr>selectedImage := None, imagePreview := None\<rparr>"

definition accepted :: "'n State \<Rightarrow> bool" where
  "accepted s = (\<not> ((trim (input s) = [] \<and> selectedImage s = None) \<or> isProcessing s))"

definition handleSend :: "'n::{zero,plus} World \<Rightarrow> 'n State \<Rightarrow> 'n State" where
  "handleSend w s =
     (if \<not> accepted s then s
      else (let userText = input s;
                userImage = selectedImage s;
                userImagePreview = imagePreview s;
                s1 = clearImage (s\<lparr>input := []\<rparr>);
                s2 = post \<lparr>msg_id = IdNumber (sent_at w), msg_type = User, msg_text = userText,
                           msg_image = (case userImagePreview of
                                          None \<Rightarrow> None
                                        | Some p \<Rightarrow> if p = [] then None else Some p),
                           msg_data = None\<rparr> s1;
                s3 = s2\<lparr>isProcessing := True\<rparr>
            in case try_block w userText userImage s3 of
                 (Throw, s4) \<Rightarrow> finally_block (catch_block w s4)
               | (_, s4) \<Rightarrow> finally_block s4))"

text \<open>
  The state of \<open>App\<close> when it is mounted (the initial values of its \<open>useState\<close> hooks),
  on the backend the repository ships with: \<open>FIREBASE_CONFIG.apiKey\<close> is the placeholder,
  so \<open>IS_FIREBASE_CONFIGURED\<close> is false and the backend is the local slot, here still
  absent.
\<close>

definition initial :: "'n State" where
  "initial =
     \<lparr>user = None, expenses = [],
      messages = [\<lparr>msg_id = IdString ''intro'', msg_type = Bot,
                   msg_text = ''Astra Ledger online. Type expenses, upload a receipt, or ask '' @
                              [CHR 0x27] @ ''How much did I spend on food?'' @ [CHR 0x27],
                   msg_image = None, msg_data = None\<rparr>],
      input = [], selectedImage = None, imagePreview = None, isProcessing = False,
      agentStatus = idle, store = LocalStorage Absent, statuses = [], requests = []\<rparr>"

section \<open>Notions used in the statements\<close>

text \<open>
  \<open>stored uid b\<close> is the record set of user \<open>uid\<close> on the backend \<open>b\<close>, as
  \<open>subscribeToExpenses\<close> reads it before sorting, \<open>stored_docs uid b\<close> the documents of
  that user in the document store, and \<open>creation_time now b a\<close> the time the comparator
  of the backend computes for the record \<open>a\<close>.
\<close>

definition stored :: "string \<Rightarrow> 'n Expense backend \<Rightarrow> 'n Expense list" where
  "stored uid b =
     (case b of Firestore db \<Rightarrow> map snapshot_doc (db uid) | LocalStorage raw \<Rightarrow> getLocalData raw)"

definition stored_docs :: "string \<Rightarrow> 'n Expense backend \<Rightarrow> 'n Expense collection" where
  "stored_docs uid b = (case b of Firestore db \<Rightarrow> db uid | LocalStorage raw \<Rightarrow> [])"

definition creation_time :: "int \<Rightarrow> 'n Expense backend \<Rightarrow> 'n Expense \<Rightarrow> rat" where
  "creation_time now b a =
     (case b of Firestore db \<Rightarrow> timeCloud now a | LocalStorage raw \<Rightarrow> of_int (timeLocal a))"

definition descending :: "('a \<Rightarrow> rat) \<Rightarrow> 'a list \<Rightarrow> bool" where
  "descending time xs = sorted_wrt (\<lambda>a c. time c \<le> time a) xs"

definition strictly_descending :: "('a \<Rightarrow> rat) \<Rightarrow> 'a list \<Rightarrow> bool" where
  "strictly_descending time xs = sorted_wrt (\<lambda>a c. time c < time a) xs"

subsection \<open>Example data\<close>

definition tea :: "int Expense" where
  "tea = \<lparr>id' = None, item = ''tea'', amount = 10, category = ''Food'', createdAt = None,
          originalText = None\<rparr>"

definition bus :: "int Expense" where
  "bus = \<lparr>id' = None, item = ''bus'', amount = 20, category = ''Transport'', createdAt = None,
          originalText = None\<rparr>"

text \<open>Two records created in local mode within the same second, as one pass with two
  candidates does.\<close>

definition same_second :: "int Expense backend" where
  "same_second =
     snd (addExpense ''id-2'' 1700000000900 None ''local_user'' bus ''tea 10, bus 20''
       (snd (addExpense ''id-1'' 1700000000100 None ''local_user'' tea ''tea 10, bus 20''
          (LocalStorage Absent))))"

text \<open>Two records created in local mode four seconds apart.\<close>

definition two_creates :: "int Expense backend" where
  "two_creates =
     snd (addExpense ''id-2'' 5000 None ''local_user'' bus ''bus 20''
       (snd (addExpense ''id-1'' 1000 None ''local_user'' tea ''tea 10''
          (LocalStorage Absent))))"

text \<open>A collection in the document store whose first document still waits for the
  server's timestamp.\<close>

definition pending_first :: "int Expense backend" where
  "pending_first =
     Firestore (\<lambda>uid. if uid = ''u1''
        then [(''doc-1'', tea),
              (''doc-2'', bus\<lparr>createdAt := Some \<lparr>seconds = 5, nanoseconds = 0,
                                                  toMillis = Some SdkMillis\<rparr>\<rparr>)]
        else [])"

subsection \<open>The memory context, in the words of the specification\<close>

text \<open>\<open>first_wins ps\<close> keeps, for each key, the first pair of \<open>ps\<close> with that key, in the
  order in which the keys first occur.\<close>

fun first_wins :: "('k \<times> 'v) list \<Rightarrow> ('k \<times> 'v) list" where
  "first_wins [] = []"
| "first_wins (p # ps) = p # first_wins (filter (\<lambda>q. fst q \<noteq> fst p) ps)"

text \<open>
  The mapping as the specification words it: from the lower-cased item label to the first
  category recorded for that label, the first 50 labels in history order.
\<close>

definition claimed_memory ::
  "(string \<Rightarrow> string) \<Rightarrow> 'n Expense list \<Rightarrow> (string \<times> string) list" where
  "claimed_memory lower history =
     take 50 (first_wins (map (\<lambda>e. (lower (item e), category e)) history))"

text \<open>
  The mapping as amended: only records with a non-empty item and a non-empty category
  count, and the label is lower-cased and trimmed.
\<close>

definition recorded :: "'n Expense \<Rightarrow> bool" where
  "recorded e = (item e \<noteq> [] \<and> category e \<noteq> [])"

definition label :: "(string \<Rightarrow> string) \<Rightarrow> 'n Expense \<Rightarrow> string" where
  "label lower e = trim (lower (item e))"

definition labelled ::
  "(string \<Rightarrow> string) \<Rightarrow> 'n Expense list \<Rightarrow> (string \<times> string) list" where
  "labelled lower history = map (\<lambda>e. (label lower e, category e)) (filter recorded history)"

definition amended_memory ::
  "(string \<Rightarrow> string) \<Rightarrow> 'n Expense list \<Rightarrow> (string \<times> string) list" where
  "amended_memory lower history = take 50 (first_wins (labelled lower history))"

text \<open>A label that is neither an array index nor the name of a member of
  \<open>Object.prototype\<close>.\<close>

definition plain_label :: "string \<Rightarrow> bool" where
  "plain_label k = (\<not> is_array_index k \<and> k \<notin> set Object_prototype)"

definition coffee :: "int Expense" where
  "coffee = \<lparr>id' = None, item = ''coffee'', amount = 3, category = ''food'', createdAt = None,
             originalText = None\<rparr>"

subsection \<open>A pass of the orchestrator\<close>

text \<open>
  The message posted for the user's turn, and the state in which the \<open>try\<close> block is
  entered: input and image cleared, the user's message appended, \<open>isProcessing\<close> set.
\<close>

definition user_message :: "'n World \<Rightarrow> 'n State \<Rightarrow> 'n Message" where
  "user_message w s =
     \<lparr>msg_id = IdNumber (sent_at w), msg_type = User, msg_text = input s,
      msg_image = (case imagePreview s of None \<Rightarrow> None | Some p \<Rightarrow> if p = [] then None else Some p),
      msg_data = None\<rparr>"

definition started :: "'n World \<Rightarrow> 'n State \<Rightarrow> 'n State" where
  "started w s = (post (user_message w s) (clearImage (s\<lparr>input := []\<rparr>)))\<lparr>isProcessing := True\<rparr>"

text \<open>
  The combined candidate list of a turn: what the vision agent returns for the attached
  image, followed by what the parsing agent returns for the text.
\<close>

definition extracted :: "'n World \<Rightarrow> 'n State \<Rightarrow> 'n Expense list" where
  "extracted w s =
     (case selectedImage s of
        None \<Rightarrow> []
      | Some f \<Rightarrow> (case fileToBase64 w f of
                     None \<Rightarrow> []
                   | Some b \<Rightarrow> fst (runVisionAgent w b (file_type f)))) @
     (if trim (input s) \<noteq> []
      then fst (runParsingAgent w (input s) (buildMemoryContext (toLowerCase w) (expenses s))) else [])"

text \<open>
  A pass reaches step C when the send is accepted, the text (if any) is not a question,
  and the attached image (if any) can be read.
\<close>

definition reaches_ledger :: "'n World \<Rightarrow> 'n State \<Rightarrow> bool" where
  "reaches_ledger w s =
     (accepted s \<and> (trim (input s) = [] \<or> \<not> isQuestion (input s)) \<and>
      (case selectedImage s of None \<Rightarrow> True | Some f \<Rightarrow> fileToBase64 w f \<noteq> None))"

text \<open>\<open>user?.uid || 'local_user'\<close> and \<open>userText || "Receipt Scan"\<close>.\<close>

definition uid_of :: "'n State \<Rightarrow> string" where
  "uid_of s = (case user s of None \<Rightarrow> ''local_user'' | Some u \<Rightarrow> if u = [] then ''local_user'' else u)"

definition source_text :: "string \<Rightarrow> string" where
  "source_text t = (if t = [] then ''Receipt Scan'' else t)"

text \<open>The candidates whose \<open>addDoc\<close> the document store accepts, each with the id of its
  document; \<open>k\<close> is the number of the first call.\<close>

fun acknowledged :: "'n World \<Rightarrow> nat \<Rightarrow> 'n Expense list \<Rightarrow> (string \<times> 'n Expense) list" where
  "acknowledged w k [] = []"
| "acknowledged w k (e # es) =
     (case addDoc_reply w k of
        None \<Rightarrow> acknowledged w (Suc k) es
      | Some r \<Rightarrow> (fst r, e) # acknowledged w (Suc k) es)"

subsection \<open>Example worlds and turns\<close>

definition receipt :: File where
  "receipt = File ''image/jpeg'' ''/9j/4AAQSkZJRg==''"

text \<open>No API key is set; the document store rejects every request.\<close>

definition no_key :: "int World" where
  "no_key =
     \<lparr>API_KEY = False, fileToBase64 = (\<lambda>f. Some (file_content f)),
      generateVision = (\<lambda>d m. Rejects), generateParsing = (\<lambda>t m. Rejects),
      generateSummary = (\<lambda>q d. None), randomUUID = (\<lambda>k. ''id-'' @ replicate k (CHR ''i'')),
      Date_now = (\<lambda>k. 1700000000000), addDoc_reply = (\<lambda>k. None),
      sent_at = 1700000000000, replied_at = 1700000000500,
      toLocaleString = (\<lambda>n. if n = 30 then ''30'' else ''?''),
      toLowerCase = ascii_lower\<rparr>"

text \<open>An API key is set; the model finds \<open>tea\<close> on every image and \<open>tea\<close> and \<open>bus\<close> in
  every text.\<close>

definition with_key :: "int World" where
  "with_key =
     \<lparr>API_KEY = True, fileToBase64 = (\<lambda>f. Some (file_content f)),
      generateVision = (\<lambda>d m. Parsed [tea]), generateParsing = (\<lambda>t m. Parsed [tea, bus]),
      generateSummary = (\<lambda>q d. Some ''You spent nothing on food.''),
      randomUUID = (\<lambda>k. ''id-'' @ replicate k (CHR ''i'')),
      Date_now = (\<lambda>k. 1700000000000), addDoc_reply = (\<lambda>k. None),
      sent_at = 1700000000000, replied_at = 1700000000500,
      toLocaleString = (\<lambda>n. if n = 30 then ''30'' else ''?''),
      toLowerCase = ascii_lower\<rparr>"

text \<open>The same, with a document store that rejects the first \<open>addDoc\<close> and accepts the
  others.\<close>

definition partly_rejected :: "int World" where
  "partly_rejected =
     with_key\<lparr>addDoc_reply :=
       (\<lambda>k. if k = 0 then None else Some (''doc-b'', Some (1700000001, 0)))\<rparr>"

definition lunch :: "int State" where
  "lunch = initial\<lparr>input := ''lunch''\<rparr>"

definition lunch_with_receipt :: "int State" where
  "lunch_with_receipt = initial\<lparr>input := ''lunch'', selectedImage := Some receipt\<rparr>"

definition tea_and_bus :: "int State" where
  "tea_and_bus = initial\<lparr>input := ''tea 10, bus 20''\<rparr>"

definition cloud_tea_and_bus :: "int State" where
  "cloud_tea_and_bus = initial\<lparr>input := ''tea 10, bus 20'', store := Firestore (\<lambda>uid. [])\<rparr>"

definition question_with_receipt :: "int State" where
  "question_with_receipt =
     initial\<lparr>input := ''How much did I spend on food?'', selectedImage := Some receipt\<rparr>"

section \<open>Properties\<close>

subsection \<open>Trimming\<close>

lemmas trim_eval =
  trim_def trimStart_def trimEnd_def strip.simps white_space_def starts_with_def

lemma strip_Nil: "strip ws [] = []"
proof -
  have "find (\<lambda>w. starts_with w []) ws = None"
    by (auto simp: find_None_iff starts_with_def)
  then show ?thesis
    by (subst strip.simps) simp
qed

lemma trim_Nil: "trim [] = []"
  by (simp add: trim_def trimStart_def trimEnd_def strip_Nil)

lemma trim_nonempty: "trim t \<noteq> [] \<Longrightarrow> t \<noteq> []"
  using trim_Nil by auto

text \<open>White space outside ASCII is trimmed as well: a text of one no-break space is no
  text, and a send of it alone is refused.\<close>

lemma no_break_space_is_blank:
  "trim [CHR 0xC2, CHR 0xA0] = [] \<and> \<not> accepted (initial\<lparr>input := [CHR 0xC2, CHR 0xA0]\<rparr>)"
  by (simp add: accepted_def initial_def trim_eval)

subsection \<open>Classification (C1)\<close>

lemma toLowerChar_idem: "toLowerChar (toLowerChar c) = toLowerChar c"
  by (auto simp: toLowerChar_def upper_lower_def split: option.splits if_splits)

lemma matchesAt_iff:
  "matchesAt w t \<longleftrightarrow> length w \<le> length t \<and> ascii_lower (take (length w) t) = ascii_lower w"
  by (induction w t rule: matchesAt.induct) (auto simp: ascii_lower_def)

lemma lead_words_lower: "w \<in> set lead_words \<Longrightarrow> ascii_lower w = w"
  by (auto simp: lead_words_def ascii_lower_def toLowerChar_def upper_lower_def)

text \<open>
  The rule of the classification: a text is a question exactly when, lower-cased, it
  starts with one of the lead words.
\<close>

lemma isQuestion_lead_word:
  "isQuestion t \<longleftrightarrow> (\<exists>w \<in> set lead_words. ascii_lower (take (length w) t) = w)"
proof
  assume "isQuestion t"
  then obtain w where "w \<in> set lead_words" "matchesAt w t"
    by (auto simp: isQuestion_def list_ex_iff)
  then show "\<exists>w \<in> set lead_words. ascii_lower (take (length w) t) = w"
    by (auto simp: matchesAt_iff lead_words_lower)
next
  assume "\<exists>w \<in> set lead_words. ascii_lower (take (length w) t) = w"
  then obtain w where w: "w \<in> set lead_words" "ascii_lower (take (length w) t) = w"
    by blast
  from w(2) have "length (take (length w) t) = length w"
    by (metis length_map ascii_lower_def)
  then have "length w \<le> length t"
    by simp
  with w have "matchesAt w t"
    by (simp add: matchesAt_iff lead_words_lower)
  with w(1) show "isQuestion t"
    by (auto simp: isQuestion_def list_ex_iff)
qed

lemma how_much_is_question: "isQuestion ''How much did I spend on food?''"
  by (simp add: isQuestion_def lead_words_def toLowerChar_def upper_lower_def)

text \<open>
  C1. The text \<open>Spent 500 on dinner\<close> starts with the lead word \<open>spent\<close>: it is classified
  as a question. Sent from the initial state, it takes the summary path: the statuses
  set are \<open>summary\<close>, \<open>idle\<close>, \<open>idle\<close>, the only request is the one of the summary agent
  (none when no API key is set), no parsing is attempted and nothing is stored.
\<close>

theorem spent_500_on_dinner_is_question:
  "isQuestion ''Spent 500 on dinner'' \<and>
   statuses (handleSend w (initial\<lparr>input := ''Spent 500 on dinner''\<rparr>)) = [summary, idle, idle] \<and>
   requests (handleSend w (initial\<lparr>input := ''Spent 500 on dinner''\<rparr>)) =
     snd (runSummaryAgent w ''Spent 500 on dinner'' []) \<and>
   store (handleSend w (initial\<lparr>input := ''Spent 500 on dinner''\<rparr>)) = LocalStorage Absent"
proof -
  have q: "isQuestion ''Spent 500 on dinner''"
    by (simp add: isQuestion_def lead_words_def toLowerChar_def upper_lower_def)
  have t: "trim ''Spent 500 on dinner'' \<noteq> []"
    by (simp add: trim_eval)
  show ?thesis
    by (simp add: q t handleSend_def accepted_def initial_def clearImage_def post_def
        try_block_def vision_step_def summary_step_def setAgentStatus_def sent_def
        finally_block_def Let_def split: prod.splits)
qed

subsection \<open>Order of the subscription's record set (C2)\<close>

lemma sort_desc_sorted: "sorted_wrt (\<lambda>a c. time c \<le> time a) (sort_desc time xs)"
proof -
  have "sorted (map (\<lambda>a. - time a) (sort_key (\<lambda>a. - time a) xs))"
    by (rule sorted_sort_key)
  then show ?thesis
    by (simp add: sort_desc_def sorted_map)
qed

lemma sort_desc_mset: "mset (sort_desc time xs) = mset xs"
  by (simp add: sort_desc_def)

lemma sort_desc_stable:
  "filter (\<lambda>a. time a = t) (sort_desc time xs) = filter (\<lambda>a. time a = t) xs"
proof -
  have "filter (\<lambda>a. - time a = - t) (sort_key (\<lambda>a. - time a) xs) =
        filter (\<lambda>a. - time a = - t) xs"
    by (rule sort_key_stable)
  then show ?thesis by (simp add: sort_desc_def)
qed

lemma sort_desc_of_int: "sort_desc (\<lambda>a. (of_int (f a) :: rat)) xs = sort_desc f xs"
proof -
  have "sort_key (\<lambda>a. - (of_int (f a) :: rat)) ys = sort_key (\<lambda>a. - f a) ys" for ys
  proof (induction ys)
    case Nil
    show ?case by simp
  next
    case (Cons y ys)
    have ins: "insort_key (\<lambda>a. - (of_int (f a) :: rat)) y zs = insort_key (\<lambda>a. - f a) y zs"
      for zs
      by (induction zs) auto
    show ?case using Cons by (simp add: ins)
  qed
  then show ?thesis by (simp add: sort_desc_def)
qed

lemma subscribe_is_sort:
  "subscribeToExpenses now uid b = sort_desc (creation_time now b) (stored uid b)"
proof (cases b)
  case (LocalStorage raw)
  have "creation_time now (LocalStorage raw) = (\<lambda>a. of_int (timeLocal a))"
    by (rule ext) (simp add: creation_time_def)
  then show ?thesis
    by (simp add: LocalStorage subscribeToExpenses_def stored_def sort_desc_of_int)
next
  case (Firestore db)
  have "creation_time now (Firestore db) = timeCloud now"
    by (rule ext) (simp add: creation_time_def)
  then show ?thesis
    by (simp add: Firestore subscribeToExpenses_def stored_def)
qed

lemma no_stamp_zero: "createdAt a = None \<Longrightarrow> creation_time now b a = 0"
  by (cases b) (simp_all add: creation_time_def timeCloud_def timeLocal_def)

text \<open>
  C2, as amended. On either backend the list the callback receives is a rearrangement
  of the stored record set in descending order of creation time, not strictly: records
  of equal time keep the order in which they are stored. A record with no timestamp
  counts as time zero, so no record that follows it has a positive time.
\<close>

theorem subscribe_descending:
  "descending (creation_time now b) (subscribeToExpenses now uid b) \<and>
   mset (subscribeToExpenses now uid b) = mset (stored uid b) \<and>
   (\<forall>t. filter (\<lambda>a. creation_time now b a = t) (subscribeToExpenses now uid b) =
        filter (\<lambda>a. creation_time now b a = t) (stored uid b)) \<and>
   (\<forall>a. createdAt a = None \<longrightarrow> creation_time now b a = 0) \<and>
   (\<forall>i j. i < j \<and> j < length (subscribeToExpenses now uid b) \<and>
          createdAt (subscribeToExpenses now uid b ! i) = None \<longrightarrow>
          creation_time now b (subscribeToExpenses now uid b ! j) \<le> 0)"
proof -
  let ?d = "subscribeToExpenses now uid b"
  have d: "?d = sort_desc (creation_time now b) (stored uid b)"
    by (rule subscribe_is_sort)
  have s: "sorted_wrt (\<lambda>a c. creation_time now b c \<le> creation_time now b a) ?d"
    unfolding d by (rule sort_desc_sorted)
  have last: "creation_time now b (?d ! j) \<le> 0"
    if "i < j" "j < length ?d" "createdAt (?d ! i) = None" for i j
  proof -
    have "creation_time now b (?d ! j) \<le> creation_time now b (?d ! i)"
      using s that(1,2) by (simp add: sorted_wrt_iff_nth_less)
    then show ?thesis using no_stamp_zero [OF that(3), of now b] by simp
  qed
  have m: "mset ?d = mset (stored uid b)"
    unfolding d by (rule sort_desc_mset)
  have st: "filter (\<lambda>a. creation_time now b a = t) ?d =
            filter (\<lambda>a. creation_time now b a = t) (stored uid b)" for t
    unfolding d by (rule sort_desc_stable)
  show ?thesis
    unfolding descending_def using s m st last no_stamp_zero [of _ now b] by blast
qed

lemma pending_first_delivered:
  "map id' (subscribeToExpenses 0 ''u1'' pending_first) = [Some ''doc-2'', Some ''doc-1'']"
  by (simp add: pending_first_def subscribeToExpenses_def snapshot_doc_def sort_desc_def
      timeCloud_def call_toMillis_def tea_def bus_def)

theorem subscribe_descending_witness:
  "descending (creation_time 0 pending_first) (subscribeToExpenses 0 ''u1'' pending_first) \<and>
   map id' (subscribeToExpenses 0 ''u1'' pending_first) = [Some ''doc-2'', Some ''doc-1''] \<and>
   map createdAt (stored ''u1'' pending_first) =
     [None, Some \<lparr>seconds = 5, nanoseconds = 0, toMillis = Some SdkMillis\<rparr>]"
proof -
  have "map createdAt (stored ''u1'' pending_first) =
          [None, Some \<lparr>seconds = 5, nanoseconds = 0, toMillis = Some SdkMillis\<rparr>]"
    by (simp add: pending_first_def stored_def snapshot_doc_def tea_def bus_def)
  then show ?thesis
    using subscribe_descending [of 0 pending_first "''u1''"] pending_first_delivered
    by simp
qed

lemma same_second_delivered:
  "subscribeToExpenses now uid same_second =
    [tea\<lparr>id' := Some ''id-1'', originalText := Some ''tea 10, bus 20'',
         createdAt := Some \<lparr>seconds = 1700000000, nanoseconds = 0, toMillis = None\<rparr>\<rparr>,
     bus\<lparr>id' := Some ''id-2'', originalText := Some ''tea 10, bus 20'',
         createdAt := Some \<lparr>seconds = 1700000000, nanoseconds = 0, toMillis = None\<rparr>\<rparr>]"
  by (simp add: same_second_def subscribeToExpenses_def addExpense_def getLocalData_def
      saveLocalData_def json_def sort_desc_def timeLocal_def tea_def bus_def)

text \<open>
  The order is not strict: two records created in local mode within one second have the
  same creation time.
\<close>

theorem subscribe_not_strictly_descending:
  "\<not> strictly_descending (creation_time 0 same_second)
       (subscribeToExpenses 0 ''local_user'' same_second)"
  unfolding same_second_delivered
  by (simp add: strictly_descending_def creation_time_def same_second_def addExpense_def
      saveLocalData_def timeLocal_def)

subsection \<open>The timestamp of a record created in local mode (C7)\<close>

text \<open>
  C7. Two records are created in local mode, at 1000 ms and at 5000 ms. Read back from
  the slot, their timestamps have no \<open>toMillis\<close>: the accessor was a function and is not
  part of the stored text. The comparator of cloud mode, which reads \<open>toMillis\<close>, gives
  both the time zero and leaves them in stored order; the comparator of local mode, which
  reads \<open>seconds\<close>, puts the later record first.
\<close>

theorem local_timestamp_loses_accessor:
  "map (\<lambda>e. map_option toMillis (createdAt e)) (stored ''local_user'' two_creates) =
     [Some None, Some None] \<and>
   map id' (sort_desc (timeCloud now) (stored ''local_user'' two_creates)) =
     [Some ''id-1'', Some ''id-2''] \<and>
   map id' (sort_desc timeLocal (stored ''local_user'' two_creates)) =
     [Some ''id-2'', Some ''id-1'']"
  by (simp add: two_creates_def stored_def addExpense_def getLocalData_def saveLocalData_def
      json_def sort_desc_def timeLocal_def timeCloud_def tea_def bus_def)

subsection \<open>Deleting an id that is not stored (C9)\<close>

lemma json_idem: "json (json e) = json e"
  by (cases "createdAt e") (simp_all add: json_def)

lemma getLocalData_json: "map json (getLocalData raw) = getLocalData raw"
  by (cases raw) (simp_all add: getLocalData_def json_idem)

lemma filter_id_absent: "Some i \<notin> id' ` set xs \<Longrightarrow> filter (\<lambda>e. id' e \<noteq> Some i) xs = xs"
  by (induction xs) auto

lemma filter_fst_absent: "i \<notin> fst ` set xs \<Longrightarrow> filter (\<lambda>d. fst d \<noteq> i) xs = xs"
  by (induction xs) auto

text \<open>
  C9. In local mode, removing an id that no stored record has resolves, and leaves the
  record set and what the callback receives as they were. In cloud mode, removing a
  document id that the collection does not hold leaves the store as it was, and the
  promise resolves whenever the transport accepts the request.
\<close>

theorem removeExpense_absent:
  "(Some expenseId \<notin> id' ` set (stored u (LocalStorage raw)) \<longrightarrow>
      fst (removeExpense ok uid expenseId (LocalStorage raw)) \<and>
      stored u (snd (removeExpense ok uid expenseId (LocalStorage raw))) =
        stored u (LocalStorage raw) \<and>
      subscribeToExpenses now u (snd (removeExpense ok uid expenseId (LocalStorage raw))) =
        subscribeToExpenses now u (LocalStorage raw)) \<and>
   (expenseId \<notin> fst ` set (db uid) \<longrightarrow>
      fst (removeExpense True uid expenseId (Firestore db)) \<and>
      snd (removeExpense ok uid expenseId (Firestore db)) = Firestore db)"
proof -
  have loc: "getLocalData (saveLocalData (filter (\<lambda>e. id' e \<noteq> Some expenseId) (getLocalData raw)))
             = getLocalData raw"
    if "Some expenseId \<notin> id' ` set (getLocalData raw)"
  proof -
    have "getLocalData (saveLocalData (getLocalData raw)) = getLocalData raw"
      by (simp add: saveLocalData_def getLocalData_def [of "Saved _"] getLocalData_json)
    then show ?thesis using that by (simp add: filter_id_absent)
  qed
  show ?thesis
    using loc
    by (auto simp: removeExpense_def Let_def subscribeToExpenses_def deleteDoc_def stored_def
        filter_fst_absent)
qed

theorem removeExpense_absent_witness:
  "Some ''id-9'' \<notin> id' ` set (stored ''local_user'' two_creates) \<and>
   subscribeToExpenses 0 ''local_user''
     (snd (removeExpense True ''local_user'' ''id-9'' two_creates)) =
   subscribeToExpenses 0 ''local_user'' two_creates \<and>
   ''doc-9'' \<notin> fst ` set (stored_docs ''u1'' pending_first) \<and>
   snd (removeExpense True ''u1'' ''doc-9'' pending_first) = pending_first"
proof -
  obtain raw where raw: "two_creates = LocalStorage raw"
    by (simp add: two_creates_def addExpense_def)
  have absent: "Some ''id-9'' \<notin> id' ` set (stored ''local_user'' two_creates)"
    by (simp add: two_creates_def stored_def addExpense_def getLocalData_def saveLocalData_def
        json_def tea_def bus_def)
  then have "Some ''id-9'' \<notin> id' ` set (stored ''local_user'' (LocalStorage raw))"
    by (simp add: raw)
  with removeExpense_absent [of "''id-9''" "''local_user''" raw True "''local_user''" 0]
  have loc: "subscribeToExpenses 0 ''local_user''
          (snd (removeExpense True ''local_user'' ''id-9'' (LocalStorage raw))) =
        subscribeToExpenses 0 ''local_user'' (LocalStorage raw)"
    by blast
  obtain db where db: "pending_first = Firestore db"
    by (simp add: pending_first_def)
  have gone: "''doc-9'' \<notin> fst ` set (stored_docs ''u1'' pending_first)"
    by (simp add: pending_first_def stored_docs_def)
  then have "''doc-9'' \<notin> fst ` set (db ''u1'')"
    by (simp add: db stored_docs_def)
  with removeExpense_absent [where expenseId = "''doc-9''" and uid = "''u1''" and db = db
      and ok = True]
  have "snd (removeExpense True ''u1'' ''doc-9'' (Firestore db)) = Firestore db"
    by blast
  then show ?thesis
    using absent loc gone by (simp add: raw db)
qed

subsection \<open>The memory context (C6)\<close>

lemma first_wins_snoc:
  "first_wins (ps @ [p]) = (if fst p \<in> fst ` set ps then first_wins ps else first_wins ps @ [p])"
proof (induction ps rule: first_wins.induct)
  case 1
  show ?case by simp
next
  case (2 q qs)
  show ?case
  proof (cases "fst p = fst q")
    case True
    then show ?thesis by simp
  next
    case False
    then have "fst p \<in> fst ` set (filter (\<lambda>r. fst r \<noteq> fst q) qs) \<longleftrightarrow> fst p \<in> fst ` set qs"
      by auto
    with False 2 show ?thesis by auto
  qed
qed

lemma first_wins_keys: "fst ` set (first_wins ps) = fst ` set ps"
  by (induction ps rule: first_wins.induct) auto

lemma map_of_filter_other:
  "k \<noteq> a \<Longrightarrow> map_of (filter (\<lambda>r. fst r \<noteq> a) qs) k = map_of qs k"
  by (induction qs) auto

lemma first_wins_map_of: "map_of (first_wins ps) k = map_of ps k"
  by (induction ps rule: first_wins.induct) (auto simp: map_of_filter_other)

lemma first_wins_distinct: "distinct (map fst (first_wins ps))"
  by (induction ps rule: first_wins.induct) (auto simp: first_wins_keys)

lemma labelled_snoc:
  "labelled lower (xs @ [x]) =
     (if recorded x then labelled lower xs @ [(label lower x, category x)]
      else labelled lower xs)"
  by (simp add: labelled_def)

lemma labelled_values: "(k, v) \<in> set (labelled lower xs) \<Longrightarrow> v \<noteq> []"
  by (auto simp: labelled_def recorded_def)

lemma labelled_keys:
  "k \<in> fst ` set (labelled lower xs) \<Longrightarrow> \<exists>e \<in> set xs. recorded e \<and> k = label lower e"
  by (auto simp: labelled_def)

text \<open>The object built by the loop: one step of \<open>forEach\<close> adds the last record.\<close>

lemma habits_first_wins:
  assumes "\<forall>e \<in> set xs. recorded e \<longrightarrow> plain_label (label lower e)"
  shows "habits lower xs = first_wins (labelled lower xs)"
  using assms
proof (induction xs rule: rev_induct)
  case Nil
  show ?case by (simp add: habits_def labelled_def)
next
  case (snoc x xs)
  then have IH: "habits lower xs = first_wins (labelled lower xs)"
    by simp
  have step: "habits lower (xs @ [x]) = habit_step lower x (habits lower xs)"
    by (simp add: habits_def)
  show ?case
  proof (cases "recorded x")
    case False
    then have "habit_step lower x (first_wins (labelled lower xs)) = first_wins (labelled lower xs)"
      by (auto simp: habit_step_def recorded_def)
    with False show ?thesis
      by (simp add: step IH labelled_snoc)
  next
    case True
    let ?k = "label lower x" and ?P = "labelled lower xs"
    from snoc.prems True have plain: "plain_label ?k"
      by simp
    then have notproto: "?k \<notin> set Object_prototype" and k: "?k \<noteq> ''__proto__''"
      by (auto simp: plain_label_def Object_prototype_def)
    show ?thesis
    proof (cases "map_of ?P ?k")
      case None
      then have "?k \<notin> fst ` set ?P"
        by (simp add: map_of_eq_None_iff)
      moreover have "habit_step lower x (first_wins ?P) = first_wins ?P @ [(?k, category x)]"
        using True None notproto k
        by (simp add: habit_step_def recorded_def label_def truthy_get_def js_set_def
            first_wins_map_of Let_def)
      ultimately show ?thesis
        using True by (simp add: step IH labelled_snoc first_wins_snoc)
    next
      case (Some v)
      then have "(?k, v) \<in> set ?P"
        by (rule map_of_SomeD)
      then have "v \<noteq> []" and "?k \<in> fst ` set ?P"
        by (auto dest: labelled_values intro: rev_image_eqI)
      moreover have "habit_step lower x (first_wins ?P) = first_wins ?P"
        using True Some \<open>v \<noteq> []\<close>
        by (simp add: habit_step_def recorded_def label_def truthy_get_def first_wins_map_of
            Let_def)
      ultimately show ?thesis
        using True by (simp add: step IH labelled_snoc first_wins_snoc)
    qed
  qed
qed

lemma Object_entries_plain:
  assumes "\<forall>p \<in> set obj. \<not> is_array_index (fst p)"
  shows "Object_entries obj = obj"
proof -
  have "filter (\<lambda>p. is_array_index (fst p)) obj = []"
    using assms by (simp add: filter_empty_conv)
  moreover have "filter (\<lambda>p. \<not> is_array_index (fst p)) obj = obj"
    using assms by (simp add: filter_id_conv)
  ultimately show ?thesis by (simp add: Object_entries_def)
qed

text \<open>
  C6, as amended. \<open>lower\<close> stands for \<open>String.prototype.toLowerCase\<close>; the statement
  holds whatever that function is. For a history whose labels are plain, the entries that
  \<open>buildMemoryContext\<close> renders are the mapping from the item label, lower-cased and then
  trimmed, to the category of the first record with that label, among the records with a
  non-empty item and category, cut to the first 50 labels in history order; the labels
  are distinct, and the result is the text of these entries joined by a comma and a space.
\<close>

theorem memory_first_category:
  assumes "\<forall>e \<in> set history. recorded e \<longrightarrow> plain_label (label lower e)"
  shows "memory_entries lower history = amended_memory lower history \<and>
         buildMemoryContext lower history =
           join '', '' (map render_entry (amended_memory lower history)) \<and>
         distinct (map fst (memory_entries lower history)) \<and>
         length (memory_entries lower history) \<le> 50 \<and>
         (\<forall>k v. (k, v) \<in> set (memory_entries lower history) \<longrightarrow>
                map_of (labelled lower history) k = Some v)"
proof -
  have h: "habits lower history = first_wins (labelled lower history)"
    using assms by (rule habits_first_wins)
  have "\<not> is_array_index (fst p)" if "p \<in> set (first_wins (labelled lower history))" for p
  proof -
    from that have "fst p \<in> fst ` set (labelled lower history)"
      using first_wins_keys [of "labelled lower history"] by blast
    then obtain e where "e \<in> set history" "recorded e" "fst p = label lower e"
      using labelled_keys by blast
    with assms show ?thesis by (auto simp: plain_label_def)
  qed
  then have oe: "Object_entries (habits lower history) = first_wins (labelled lower history)"
    by (simp add: h Object_entries_plain)
  have m: "memory_entries lower history = amended_memory lower history"
    by (simp add: memory_entries_def amended_memory_def oe)
  have d: "distinct (map fst (amended_memory lower history))"
    unfolding amended_memory_def take_map [symmetric]
    by (rule distinct_take) (rule first_wins_distinct)
  have v: "map_of (labelled lower history) k = Some v"
    if "(k, v) \<in> set (amended_memory lower history)" for k v
  proof -
    from that have "(k, v) \<in> set (first_wins (labelled lower history))"
      by (auto simp: amended_memory_def dest: in_set_takeD)
    then have "map_of (first_wins (labelled lower history)) k = Some v"
      by (simp add: first_wins_distinct)
    then show ?thesis by (simp add: first_wins_map_of)
  qed
  show ?thesis
    using d v by (auto simp: m buildMemoryContext_def amended_memory_def)
qed

theorem memory_first_category_witness:
  "plain_label (label ascii_lower coffee) \<and>
   plain_label (label ascii_lower (coffee\<lparr>item := ''Coffee'', category := ''drinks''\<rparr>)) \<and>
   memory_entries ascii_lower [coffee, coffee\<lparr>item := ''Coffee'', category := ''drinks''\<rparr>] =
     [(''coffee'', ''food'')] \<and>
   buildMemoryContext ascii_lower [coffee, coffee\<lparr>item := ''Coffee'', category := ''drinks''\<rparr>] =
     [CHR 0x22] @ ''coffee'' @ [CHR 0x22] @ '': '' @ [CHR 0x22] @ ''food'' @ [CHR 0x22]"
proof -
  let ?h = "[coffee, coffee\<lparr>item := ''Coffee'', category := ''drinks''\<rparr>]"
  have l: "label ascii_lower coffee = ''coffee''"
    "label ascii_lower (coffee\<lparr>item := ''Coffee'', category := ''drinks''\<rparr>) = ''coffee''"
    by (simp_all add: label_def coffee_def ascii_lower_def toLowerChar_def upper_lower_def
        trim_eval)
  have p: "plain_label ''coffee''"
    by (simp add: plain_label_def is_array_index_def Object_prototype_def)
  have a: "amended_memory ascii_lower ?h = [(''coffee'', ''food'')]"
    by (simp add: amended_memory_def labelled_def recorded_def l) (simp add: coffee_def)
  have "\<forall>e \<in> set ?h. recorded e \<longrightarrow> plain_label (label ascii_lower e)"
    by (simp add: l p)
  from memory_first_category [OF this] show ?thesis
    by (simp add: a l p render_entry_def)
qed

text \<open>
  The statement as the specification words it fails where trimming matters: the labels
  \<open>Coffee \<close> (with a trailing space) and \<open>coffee\<close> differ when lower-cased, yet the code
  keeps one entry. On these ASCII labels \<open>toLowerCase\<close> is \<open>ascii_lower\<close>.
\<close>

theorem memory_is_not_claimed_memory:
  "memory_entries ascii_lower
     [coffee\<lparr>item := ''Coffee ''\<rparr>, coffee\<lparr>category := ''drinks''\<rparr>] \<noteq>
   claimed_memory ascii_lower
     [coffee\<lparr>item := ''Coffee ''\<rparr>, coffee\<lparr>category := ''drinks''\<rparr>]"
  by (simp add: memory_entries_def habits_def habit_step_def claimed_memory_def coffee_def
      ascii_lower_def toLowerChar_def upper_lower_def trim_eval truthy_get_def
      js_set_def Object_prototype_def Object_entries_def is_array_index_def)

text \<open>
  Two behaviours of the plain object that the amended statement leaves out: a label that
  names a member of \<open>Object.prototype\<close> is never entered, and labels that are array
  indices are listed first, in numeric order.
\<close>

lemma constructor_label_not_entered:
  "memory_entries ascii_lower [coffee\<lparr>item := ''Constructor''\<rparr>] = []"
  by (simp add: memory_entries_def habits_def habit_step_def coffee_def ascii_lower_def
      toLowerChar_def upper_lower_def trim_eval truthy_get_def
      Object_prototype_def Object_entries_def)

lemma array_index_labels_first:
  "memory_entries ascii_lower [coffee, coffee\<lparr>item := ''1984'', category := ''books''\<rparr>,
     coffee\<lparr>item := ''7'', category := ''drinks''\<rparr>] =
   [(''7'', ''drinks''), (''1984'', ''books''), (''coffee'', ''food'')]"
  by (simp add: memory_entries_def habits_def habit_step_def coffee_def ascii_lower_def
      toLowerChar_def upper_lower_def trim_eval truthy_get_def js_set_def
      Object_prototype_def Object_entries_def is_array_index_def numeral_value_def
      digit_value_def)

text \<open>
  Labels outside ASCII: the items \<open>CAFE\<close> and \<open>cafe\<close> written with an acute accent on the
  \<open>E\<close> (U+00C9, bytes C3 89) and on the \<open>e\<close> (U+00E9, bytes C3 A9). \<open>toLowerCase\<close> maps
  both to the second, and the memory has one entry, with the category of the first record.
\<close>

lemma non_ascii_labels_one_entry:
  assumes "lower [CHR 0x43, CHR 0x41, CHR 0x46, CHR 0xC3, CHR 0x89] =
             [CHR 0x63, CHR 0x61, CHR 0x66, CHR 0xC3, CHR 0xA9]"
    and "lower [CHR 0x63, CHR 0x61, CHR 0x66, CHR 0xC3, CHR 0xA9] =
             [CHR 0x63, CHR 0x61, CHR 0x66, CHR 0xC3, CHR 0xA9]"
  shows "memory_entries lower
           [coffee\<lparr>item := [CHR 0x43, CHR 0x41, CHR 0x46, CHR 0xC3, CHR 0x89]\<rparr>,
            coffee\<lparr>item := [CHR 0x63, CHR 0x61, CHR 0x66, CHR 0xC3, CHR 0xA9],
                   category := ''drinks''\<rparr>] =
         [([CHR 0x63, CHR 0x61, CHR 0x66, CHR 0xC3, CHR 0xA9], ''food'')]"
  by (simp add: memory_entries_def habits_def habit_step_def coffee_def assms
      trim_eval truthy_get_def js_set_def Object_prototype_def Object_entries_def
      is_array_index_def)

subsection \<open>The final step of a pass (C8)\<close>

lemma handleSend_accepted:
  "accepted s \<Longrightarrow>
   handleSend w s =
     (case try_block w (input s) (selectedImage s) (started w s) of
        (Throw, s4) \<Rightarrow> finally_block (catch_block w s4)
      | (c, s4) \<Rightarrow> finally_block s4)"
  by (simp add: handleSend_def started_def user_message_def Let_def split: prod.splits completion.splits)

lemma finally_idle:
  "\<not> isProcessing (finally_block s) \<and> agentStatus (finally_block s) = idle \<and>
   last (statuses (finally_block s)) = idle"
  by (simp add: finally_block_def setAgentStatus_def)

text \<open>
  C8. Every pass that is accepted (there is a text or an image, and no pass is running)
  ends with the processing flag cleared and the status \<open>idle\<close>, and \<open>idle\<close> is the last
  status set, whatever happened in between: the summary branch, a commit, a failed commit
  or an image that cannot be read. A send that is not accepted changes nothing. Requests
  to the outside are taken to settle.
\<close>

theorem handleSend_restores_idle:
  "(accepted s \<longrightarrow>
      \<not> isProcessing (handleSend w s) \<and> agentStatus (handleSend w s) = idle \<and>
      last (statuses (handleSend w s)) = idle) \<and>
   (\<not> accepted s \<longrightarrow> handleSend w s = s)"
proof -
  have pass: "\<not> isProcessing (handleSend w s) \<and> agentStatus (handleSend w s) = idle \<and>
      last (statuses (handleSend w s)) = idle"
    if a: "accepted s"
  proof -
    obtain c s4 where t: "try_block w (input s) (selectedImage s) (started w s) = (c, s4)"
      by (cases "try_block w (input s) (selectedImage s) (started w s)")
    have "handleSend w s = finally_block (if c = Throw then catch_block w s4 else s4)"
      using handleSend_accepted [OF a, of w] t by (cases c) simp_all
    then show ?thesis
      by (simp only: finally_idle simp_thms)
  qed
  have refused: "handleSend w s = s" if "\<not> accepted s"
    using that by (simp add: handleSend_def)
  show ?thesis
    using pass refused by blast
qed

subsection \<open>The steps of a pass\<close>

lemma vision_step_store: "vision_step w i s = Inl s' \<Longrightarrow> store s' = store s"
  and vision_step_store': "vision_step w i s = Inr (v, s') \<Longrightarrow> store s' = store s"
  by (auto simp: vision_step_def setAgentStatus_def sent_def Let_def split: option.splits prod.splits)

lemma summary_step_store: "store (summary_step w t s) = store s"
  by (simp add: summary_step_def setAgentStatus_def sent_def post_def Let_def split: prod.splits)

lemma finally_store: "store (finally_block s) = store s"
  by (simp add: finally_block_def setAgentStatus_def)

lemma catch_store: "store (catch_block w s) = store s"
  by (simp add: catch_block_def post_def)

lemma try_block_question:
  assumes "trim t \<noteq> []" "isQuestion t"
  shows "store (snd (try_block w t i s)) = store s"
  using assms
  by (auto simp: try_block_def summary_step_store split: sum.splits prod.splits
      dest: vision_step_store vision_step_store')

lemma started_simps:
  "store (started w s) = store s" "statuses (started w s) = statuses s"
  "requests (started w s) = requests s" "messages (started w s) = messages s @ [user_message w s]"
  "expenses (started w s) = expenses s" "user (started w s) = user s"
  by (simp_all add: started_def post_def clearImage_def)

lemma vision_step_None: "vision_step w None s = Inr ([], s)"
  by (simp add: vision_step_def)

lemma vision_step_Some:
  "vision_step w (Some f) s =
     (case fileToBase64 w f of
        None \<Rightarrow> Inl (setAgentStatus vision s)
      | Some b \<Rightarrow> Inr (fst (runVisionAgent w b (file_type f)),
                       sent (snd (runVisionAgent w b (file_type f))) (setAgentStatus vision s)))"
  by (simp add: vision_step_def Let_def split: option.splits prod.splits)

lemma statuses_simps:
  "statuses (setAgentStatus st s) = statuses s @ [st]"
  "statuses (sent rs s) = statuses s"
  "statuses (post m s) = statuses s"
  "statuses (finally_block s) = statuses s @ [idle]"
  "statuses (catch_block w s) = statuses s"
  "statuses (summary_step w t s) = statuses s @ [summary, idle]"
  "statuses (snd (parsing_step w t s)) = statuses s @ [parsing]"
  by (simp_all add: setAgentStatus_def sent_def post_def finally_block_def catch_block_def
      summary_step_def parsing_step_def Let_def split: prod.splits)

lemma requests_simps:
  "requests (setAgentStatus st s) = requests s"
  "requests (sent rs s) = requests s @ rs"
  "requests (post m s) = requests s"
  "requests (finally_block s) = requests s"
  "requests (catch_block w s) = requests s"
  "requests (summary_step w t s) = requests s @ snd (runSummaryAgent w t (expenses s))"
  "requests (snd (parsing_step w t s)) =
     requests s @ snd (runParsingAgent w t (buildMemoryContext (toLowerCase w) (expenses s)))"
  by (simp_all add: setAgentStatus_def sent_def post_def finally_block_def catch_block_def
      summary_step_def parsing_step_def Let_def split: prod.splits)

lemma ledger_step_logs:
  "prefix (statuses s) (statuses (snd (ledger_step w t i xs s)))"
  "requests (snd (ledger_step w t i xs s)) = requests s"
  by (auto simp: ledger_step_def Let_def setAgentStatus_def post_def split: prod.splits)

lemma try_block_unfold:
  "try_block w t i s =
     (case vision_step w i s of
        Inl s1 \<Rightarrow> (Throw, s1)
      | Inr r \<Rightarrow>
          (if trim t \<noteq> []
           then (if isQuestion t then (Return, summary_step w t (snd r))
                 else ledger_step w t i (fst r @ fst (parsing_step w t (snd r)))
                        (snd (parsing_step w t (snd r))))
           else ledger_step w t i (fst r) (snd r)))"
  by (simp add: try_block_def split: sum.splits prod.splits)

lemma vision_step_logs:
  "vision_step w i s = Inl s1 \<Longrightarrow>
     prefix (statuses s) (statuses s1) \<and> prefix (requests s) (requests s1)"
  "vision_step w i s = Inr r \<Longrightarrow>
     prefix (statuses s) (statuses (snd r)) \<and> prefix (requests s) (requests (snd r))"
  by (cases i; auto simp: vision_step_None vision_step_Some statuses_simps requests_simps
      split: option.splits)+

subsection \<open>Committing the candidates (C3)\<close>

lemma json_fields [simp]:
  "item (json e) = item e" "amount (json e) = amount e" "category (json e) = category e"
  "id' (json e) = id' e" "originalText (json e) = originalText e"
  by (simp_all add: json_def)

lemma addExpense_local:
  "addExpense u n r uid e t (LocalStorage raw) =
     (True, LocalStorage (Saved (getLocalData raw @
        [e\<lparr>id' := Some u, originalText := Some t,
           createdAt := Some \<lparr>seconds = n div 1000, nanoseconds = 0,
                              toMillis = Some ClockMillis\<rparr>\<rparr>])))"
  by (simp add: addExpense_def saveLocalData_def Let_def)

lemma commit_all_local:
  "\<exists>raw' news.
     commit_all w uid t k es (LocalStorage raw) = (True, LocalStorage raw') \<and>
     getLocalData raw' = getLocalData raw @ news \<and>
     map item news = map item es \<and> map amount news = map amount es \<and>
     map category news = map category es \<and>
     map id' news = map (\<lambda>i. Some (randomUUID w i)) [k..<k + length es] \<and>
     map originalText news = map (\<lambda>e. Some t) es"
proof (induction es arbitrary: k raw)
  case Nil
  show ?case by simp
next
  case (Cons e es)
  let ?new = "e\<lparr>id' := Some (randomUUID w k), originalText := Some t,
                createdAt := Some \<lparr>seconds = Date_now w k div 1000, nanoseconds = 0,
                                   toMillis = Some ClockMillis\<rparr>\<rparr>"
  let ?raw1 = "Saved (getLocalData raw @ [?new])"
  have g: "getLocalData ?raw1 = getLocalData raw @ [json ?new]"
    by (simp add: getLocalData_def [of "Saved _"] getLocalData_json)
  from Cons.IH [of "Suc k" ?raw1] obtain raw' news where
    c: "commit_all w uid t (Suc k) es (LocalStorage ?raw1) = (True, LocalStorage raw')"
    and n: "getLocalData raw' = getLocalData ?raw1 @ news"
      "map item news = map item es" "map amount news = map amount es"
      "map category news = map category es"
      "map id' news = map (\<lambda>i. Some (randomUUID w i)) [Suc k..<Suc k + length es]"
      "map originalText news = map (\<lambda>e. Some t) es"
    by blast
  have u: "[k..<k + length (e # es)] = k # [Suc k..<Suc k + length es]"
    by (subst upt_rec) simp
  have cc: "commit_all w uid t k (e # es) (LocalStorage raw) = (True, LocalStorage raw')"
    by (simp add: addExpense_local c)
  have gg: "getLocalData raw' = getLocalData raw @ (json ?new # news)"
    by (simp add: n(1) g)
  show ?case
    unfolding u
    by (intro exI [of _ raw'] exI [of _ "json ?new # news"] conjI, rule cc, rule gg)
      (simp_all add: n)
qed

lemma addExpense_cloud:
  "addExpense u n r uid e t (Firestore db) =
     (case r of
        None \<Rightarrow> (False, Firestore db)
      | Some a \<Rightarrow>
          (True, Firestore (db(uid := db uid @
             [(fst a, e\<lparr>originalText := Some t,
                        createdAt := map_option (\<lambda>(s, n).
                          \<lparr>seconds = s, nanoseconds = n, toMillis = Some SdkMillis\<rparr>) (snd a)\<rparr>)]))))"
  by (auto simp: addExpense_def addDoc_def split: option.splits)

lemma commit_all_cloud:
  "\<exists>docs.
     commit_all w uid t k es (Firestore db) =
       (list_all (\<lambda>i. addDoc_reply w i \<noteq> None) [k..<k + length es],
        Firestore (db(uid := db uid @ docs))) \<and>
     map fst docs = map fst (acknowledged w k es) \<and>
     map (\<lambda>d. item (snd d)) docs = map (\<lambda>d. item (snd d)) (acknowledged w k es) \<and>
     map (\<lambda>d. amount (snd d)) docs = map (\<lambda>d. amount (snd d)) (acknowledged w k es) \<and>
     map (\<lambda>d. category (snd d)) docs = map (\<lambda>d. category (snd d)) (acknowledged w k es) \<and>
     map (\<lambda>d. originalText (snd d)) docs = map (\<lambda>d. Some t) (acknowledged w k es)"
proof (induction es arbitrary: k db)
  case Nil
  show ?case by (intro exI [of _ "[]"]) simp
next
  case (Cons e es)
  have u: "[k..<k + length (e # es)] = k # [Suc k..<Suc k + length es]"
    by (subst upt_rec) simp
  show ?case
  proof (cases "addDoc_reply w k")
    case None
    from Cons.IH [of "Suc k" db] obtain docs where
      "commit_all w uid t (Suc k) es (Firestore db) =
         (list_all (\<lambda>i. addDoc_reply w i \<noteq> None) [Suc k..<Suc k + length es],
          Firestore (db(uid := db uid @ docs)))"
      and d: "map fst docs = map fst (acknowledged w (Suc k) es)"
        "map (\<lambda>d. item (snd d)) docs = map (\<lambda>d. item (snd d)) (acknowledged w (Suc k) es)"
        "map (\<lambda>d. amount (snd d)) docs = map (\<lambda>d. amount (snd d)) (acknowledged w (Suc k) es)"
        "map (\<lambda>d. category (snd d)) docs = map (\<lambda>d. category (snd d)) (acknowledged w (Suc k) es)"
        "map (\<lambda>d. originalText (snd d)) docs = map (\<lambda>d. Some t) (acknowledged w (Suc k) es)"
      by blast
    then have cc: "commit_all w uid t k (e # es) (Firestore db) =
         (list_all (\<lambda>i. addDoc_reply w i \<noteq> None) [k..<k + length (e # es)],
          Firestore (db(uid := db uid @ docs)))"
      unfolding u by (simp add: addExpense_cloud None)
    show ?thesis
      by (intro exI [of _ docs] conjI, rule cc) (simp_all add: None d)
  next
    case (Some a)
    let ?doc = "(fst a, e\<lparr>originalText := Some t,
                        createdAt := map_option (\<lambda>(s, n).
                          \<lparr>seconds = s, nanoseconds = n, toMillis = Some SdkMillis\<rparr>) (snd a)\<rparr>)"
    let ?db1 = "db(uid := db uid @ [?doc])"
    from Cons.IH [of "Suc k" ?db1] obtain docs where
      c: "commit_all w uid t (Suc k) es (Firestore ?db1) =
         (list_all (\<lambda>i. addDoc_reply w i \<noteq> None) [Suc k..<Suc k + length es],
          Firestore (?db1(uid := ?db1 uid @ docs)))"
      and d: "map fst docs = map fst (acknowledged w (Suc k) es)"
        "map (\<lambda>d. item (snd d)) docs = map (\<lambda>d. item (snd d)) (acknowledged w (Suc k) es)"
        "map (\<lambda>d. amount (snd d)) docs = map (\<lambda>d. amount (snd d)) (acknowledged w (Suc k) es)"
        "map (\<lambda>d. category (snd d)) docs = map (\<lambda>d. category (snd d)) (acknowledged w (Suc k) es)"
        "map (\<lambda>d. originalText (snd d)) docs = map (\<lambda>d. Some t) (acknowledged w (Suc k) es)"
      by blast
    have cc: "commit_all w uid t k (e # es) (Firestore db) =
         (list_all (\<lambda>i. addDoc_reply w i \<noteq> None) [k..<k + length (e # es)],
          Firestore (db(uid := db uid @ (?doc # docs))))"
      unfolding u by (simp add: addExpense_cloud Some c)
    show ?thesis
      by (intro exI [of _ "?doc # docs"] conjI, rule cc) (simp_all add: Some d)
  qed
qed

lemma kept_simps:
  "store (setAgentStatus st s) = store s" "store (sent rs s) = store s" "store (post m s) = store s"
  "user (setAgentStatus st s) = user s" "user (sent rs s) = user s" "user (post m s) = user s"
  "messages (setAgentStatus st s) = messages s" "messages (sent rs s) = messages s"
  "messages (post m s) = messages s @ [m]"
  "expenses (setAgentStatus st s) = expenses s" "expenses (sent rs s) = expenses s"
  "store (finally_block s) = store s" "messages (finally_block s) = messages s"
  "store (catch_block w s) = store s"
  "messages (catch_block w s) =
     messages s @ [botMessage w ''System encountered an error processing your request.'' None]"
  by (simp_all add: setAgentStatus_def sent_def post_def finally_block_def catch_block_def)

lemma parsing_step_simps:
  "fst (parsing_step w t s) = fst (runParsingAgent w t (buildMemoryContext (toLowerCase w) (expenses s)))"
  "store (snd (parsing_step w t s)) = store s" "user (snd (parsing_step w t s)) = user s"
  "messages (snd (parsing_step w t s)) = messages s"
  by (simp_all add: parsing_step_def Let_def setAgentStatus_def sent_def split: prod.splits)

lemma summary_step_simps:
  "store (summary_step w t s) = store s"
  "messages (summary_step w t s) =
     messages s @ [botMessage w (fst (runSummaryAgent w t (expenses s))) None]"
  by (simp_all add: summary_step_def Let_def setAgentStatus_def sent_def post_def
      split: prod.splits)

lemma ledger_step_empty:
  "ledger_step w t i [] s =
     (Normal,
      if t = [] \<and> i \<noteq> None
      then post (botMessage w ''I couldn't identify any clear transactions in that image.'' None) s
      else if t \<noteq> [] \<and> i = None
      then post (botMessage w ''I couldn't detect a valid expense transaction.'' None) s
      else s)"
  by (auto simp: ledger_step_def)

lemma ledger_step_nonempty:
  "xs \<noteq> [] \<Longrightarrow>
   ledger_step w t i xs s =
     (if fst (commit_all w (uid_of s) (source_text t) 0 xs (store s))
      then (Normal, post (botMessage w
                            (''Ledger updated. Total: '' @ CURRENCY_SYMBOL @ '' '' @
                             toLocaleString w (foldl (\<lambda>a e. a + amount e) 0 xs))
                            (Some xs))
              ((setAgentStatus ledger s)
                 \<lparr>store := snd (commit_all w (uid_of s) (source_text t) 0 xs (store s))\<rparr>))
      else (Throw, (setAgentStatus ledger s)
                 \<lparr>store := snd (commit_all w (uid_of s) (source_text t) 0 xs (store s))\<rparr>))"
  by (simp add: ledger_step_def Let_def uid_of_def source_text_def setAgentStatus_def
      split: prod.splits)

lemma ledger_pass:
  assumes "reaches_ledger w s"
  obtains s2 where "store s2 = store s" "user s2 = user s"
    "messages s2 = messages s @ [user_message w s]"
    "handleSend w s =
       finally_block (case ledger_step w (input s) (selectedImage s) (extracted w s) s2 of
                        (Throw, s4) \<Rightarrow> catch_block w s4
                      | (c, s4) \<Rightarrow> s4)"
proof -
  from assms have acc: "accepted s"
    and nq: "trim (input s) = [] \<or> \<not> isQuestion (input s)"
    and conv: "\<And>f. selectedImage s = Some f \<Longrightarrow> fileToBase64 w f \<noteq> None"
    by (auto simp: reaches_ledger_def)
  let ?s0 = "started w s"
  obtain r where r: "vision_step w (selectedImage s) ?s0 = Inr r"
    and r1: "fst r = (case selectedImage s of
                None \<Rightarrow> []
              | Some f \<Rightarrow> (case fileToBase64 w f of
                     None \<Rightarrow> []
                   | Some b \<Rightarrow> fst (runVisionAgent w b (file_type f))))"
    and r2: "store (snd r) = store s" "user (snd r) = user s"
      "messages (snd r) = messages s @ [user_message w s]" "expenses (snd r) = expenses s"
  proof (cases "selectedImage s")
    case None
    then show ?thesis
      using that [of "([], ?s0)"] by (simp add: vision_step_None started_simps)
  next
    case (Some f)
    with conv obtain b where "fileToBase64 w f = Some b"
      by blast
    with Some show ?thesis
      using that [of "(fst (runVisionAgent w b (file_type f)),
                       sent (snd (runVisionAgent w b (file_type f))) (setAgentStatus vision ?s0))"]
      by (simp add: vision_step_Some started_simps kept_simps)
  qed
  let ?s2 = "if trim (input s) \<noteq> [] then snd (parsing_step w (input s) (snd r)) else snd r"
  have e: "extracted w s =
       fst r @ (if trim (input s) \<noteq> [] then fst (parsing_step w (input s) (snd r)) else [])"
    by (simp add: extracted_def r1 parsing_step_simps r2)
  have t: "try_block w (input s) (selectedImage s) ?s0 =
       ledger_step w (input s) (selectedImage s) (extracted w s) ?s2"
    using nq by (auto simp: try_block_unfold r e)
  have h: "handleSend w s =
       finally_block (case ledger_step w (input s) (selectedImage s) (extracted w s) ?s2 of
                        (Throw, s4) \<Rightarrow> catch_block w s4
                      | (c, s4) \<Rightarrow> s4)"
    by (simp add: handleSend_accepted [OF acc] t split: prod.splits completion.splits)
  show ?thesis
    using that [of ?s2] h by (simp add: parsing_step_simps r2)
qed

lemma total_is_sum:
  "foldl (\<lambda>a e. a + amount e) (z :: 'n :: monoid_add) xs = z + sum_list (map amount xs)"
  by (induction xs arbitrary: z) (simp_all add: add.assoc)

text \<open>
  C3. In a pass that reaches step C with a non-empty candidate list, \<open>addExpense\<close> is
  called for every candidate, in order, each call issued whatever becomes of the others.
  If all the promises resolve, the reply that follows the user's message has the text
  \<open>Ledger updated. Total: \<close>, the currency symbol, a space and the rendering of the
  total, which is the sum of the amounts from left to right starting at zero, and its data
  is the candidate list. If one of them rejects, the reply is the generic error message,
  with no data. In local mode all of them resolve and the stored
  list grows by one record per candidate, with its item, amount and category, a fresh id
  and the source text. In cloud mode the joined promise resolves exactly when the store
  accepts every \<open>addDoc\<close>, and the user's collection grows by one document for each
  candidate the store accepts, also when another one is rejected.
\<close>

theorem ledger_commits_every_candidate:
  assumes "reaches_ledger w s" and "extracted w s \<noteq> []"
  shows
    "store (handleSend w s) =
       snd (commit_all w (uid_of s) (source_text (input s)) 0 (extracted w s) (store s)) \<and>
     (fst (commit_all w (uid_of s) (source_text (input s)) 0 (extracted w s) (store s)) \<longrightarrow>
        butlast (messages (handleSend w s)) = messages s @ [user_message w s] \<and>
        msg_type (last (messages (handleSend w s))) = Bot \<and>
        msg_text (last (messages (handleSend w s))) =
          ''Ledger updated. Total: '' @ CURRENCY_SYMBOL @ '' '' @
          toLocaleString w (foldl (\<lambda>a e. a + amount e) 0 (extracted w s)) \<and>
        msg_data (last (messages (handleSend w s))) = Some (extracted w s)) \<and>
     (\<not> fst (commit_all w (uid_of s) (source_text (input s)) 0 (extracted w s) (store s)) \<longrightarrow>
        butlast (messages (handleSend w s)) = messages s @ [user_message w s] \<and>
        msg_type (last (messages (handleSend w s))) = Bot \<and>
        msg_text (last (messages (handleSend w s))) =
          ''System encountered an error processing your request.'' \<and>
        msg_data (last (messages (handleSend w s))) = None) \<and>
     (\<forall>raw. store s = LocalStorage raw \<longrightarrow>
        fst (commit_all w (uid_of s) (source_text (input s)) 0 (extracted w s) (store s)) \<and>
        (\<exists>news. stored u (store (handleSend w s)) = stored u (store s) @ news \<and>
           map item news = map item (extracted w s) \<and>
           map amount news = map amount (extracted w s) \<and>
           map category news = map category (extracted w s) \<and>
           map id' news = map (\<lambda>k. Some (randomUUID w k)) [0..<length (extracted w s)] \<and>
           map originalText news = map (\<lambda>e. Some (source_text (input s))) (extracted w s))) \<and>
     (\<forall>db. store s = Firestore db \<longrightarrow>
        fst (commit_all w (uid_of s) (source_text (input s)) 0 (extracted w s) (store s)) =
          list_all (\<lambda>k. addDoc_reply w k \<noteq> None) [0..<length (extracted w s)] \<and>
        (\<exists>docs. stored_docs (uid_of s) (store (handleSend w s)) = db (uid_of s) @ docs \<and>
           map fst docs = map fst (acknowledged w 0 (extracted w s)) \<and>
           map (\<lambda>d. item (snd d)) docs =
             map (\<lambda>d. item (snd d)) (acknowledged w 0 (extracted w s)) \<and>
           map (\<lambda>d. amount (snd d)) docs =
             map (\<lambda>d. amount (snd d)) (acknowledged w 0 (extracted w s)) \<and>
           map (\<lambda>d. category (snd d)) docs =
             map (\<lambda>d. category (snd d)) (acknowledged w 0 (extracted w s))))"
proof -
  let ?xs = "extracted w s"
  let ?c = "commit_all w (uid_of s) (source_text (input s)) 0 ?xs (store s)"
  from ledger_pass [OF assms(1)] obtain s2 where
    s2: "store s2 = store s" "user s2 = user s" "messages s2 = messages s @ [user_message w s]"
    and h: "handleSend w s =
       finally_block (case ledger_step w (input s) (selectedImage s) ?xs s2 of
                        (Throw, s4) \<Rightarrow> catch_block w s4
                      | (c, s4) \<Rightarrow> s4)"
    by blast
  have u: "uid_of s2 = uid_of s"
    by (simp add: uid_of_def s2)
  have st: "store (handleSend w s) = snd ?c"
    by (simp add: h ledger_step_nonempty [OF assms(2)] u s2 kept_simps)
  have ms: "butlast (messages (handleSend w s)) = messages s @ [user_message w s] \<and>
        msg_type (last (messages (handleSend w s))) = Bot \<and>
        msg_text (last (messages (handleSend w s))) =
          ''Ledger updated. Total: '' @ CURRENCY_SYMBOL @ '' '' @
          toLocaleString w (foldl (\<lambda>a e. a + amount e) 0 ?xs) \<and>
        msg_data (last (messages (handleSend w s))) = Some ?xs"
    if "fst ?c"
  proof -
    have "messages (handleSend w s) =
        messages s @ [user_message w s,
          botMessage w (''Ledger updated. Total: '' @ CURRENCY_SYMBOL @ '' '' @
                        toLocaleString w (foldl (\<lambda>a e. a + amount e) 0 ?xs)) (Some ?xs)]"
      using that by (simp add: h ledger_step_nonempty [OF assms(2)] u s2 kept_simps)
    then show ?thesis
      by (simp add: botMessage_def butlast_append)
  qed
  have er: "butlast (messages (handleSend w s)) = messages s @ [user_message w s] \<and>
        msg_type (last (messages (handleSend w s))) = Bot \<and>
        msg_text (last (messages (handleSend w s))) =
          ''System encountered an error processing your request.'' \<and>
        msg_data (last (messages (handleSend w s))) = None"
    if "\<not> fst ?c"
  proof -
    have "messages (handleSend w s) =
        messages s @ [user_message w s,
          botMessage w ''System encountered an error processing your request.'' None]"
      using that by (simp add: h ledger_step_nonempty [OF assms(2)] u s2 kept_simps)
    then show ?thesis
      by (simp add: botMessage_def butlast_append)
  qed
  have loc: "fst ?c \<and>
        (\<exists>news. stored u (store (handleSend w s)) = stored u (store s) @ news \<and>
           map item news = map item ?xs \<and> map amount news = map amount ?xs \<and>
           map category news = map category ?xs \<and>
           map id' news = map (\<lambda>k. Some (randomUUID w k)) [0..<length ?xs] \<and>
           map originalText news = map (\<lambda>e. Some (source_text (input s))) ?xs)"
    if "store s = LocalStorage raw" for raw
  proof -
    from commit_all_local [of w "uid_of s" "source_text (input s)" 0 ?xs raw]
    obtain raw' news where
      "commit_all w (uid_of s) (source_text (input s)) 0 ?xs (LocalStorage raw) =
         (True, LocalStorage raw')"
      "getLocalData raw' = getLocalData raw @ news"
      "map item news = map item ?xs" "map amount news = map amount ?xs"
      "map category news = map category ?xs"
      "map id' news = map (\<lambda>i. Some (randomUUID w i)) [0..<0 + length ?xs]"
      "map originalText news = map (\<lambda>e. Some (source_text (input s))) ?xs"
      by blast
    then show ?thesis
      by (intro conjI exI [of _ news]) (simp_all add: st that stored_def)
  qed
  have cl: "fst ?c = list_all (\<lambda>k. addDoc_reply w k \<noteq> None) [0..<length ?xs] \<and>
        (\<exists>docs. stored_docs (uid_of s) (store (handleSend w s)) = db (uid_of s) @ docs \<and>
           map fst docs = map fst (acknowledged w 0 ?xs) \<and>
           map (\<lambda>d. item (snd d)) docs = map (\<lambda>d. item (snd d)) (acknowledged w 0 ?xs) \<and>
           map (\<lambda>d. amount (snd d)) docs = map (\<lambda>d. amount (snd d)) (acknowledged w 0 ?xs) \<and>
           map (\<lambda>d. category (snd d)) docs =
             map (\<lambda>d. category (snd d)) (acknowledged w 0 ?xs))"
    if "store s = Firestore db" for db
  proof -
    from commit_all_cloud [of w "uid_of s" "source_text (input s)" 0 ?xs db]
    obtain docs where
      "commit_all w (uid_of s) (source_text (input s)) 0 ?xs (Firestore db) =
         (list_all (\<lambda>i. addDoc_reply w i \<noteq> None) [0..<0 + length ?xs],
          Firestore (db(uid_of s := db (uid_of s) @ docs)))"
      "map fst docs = map fst (acknowledged w 0 ?xs)"
      "map (\<lambda>d. item (snd d)) docs = map (\<lambda>d. item (snd d)) (acknowledged w 0 ?xs)"
      "map (\<lambda>d. amount (snd d)) docs = map (\<lambda>d. amount (snd d)) (acknowledged w 0 ?xs)"
      "map (\<lambda>d. category (snd d)) docs = map (\<lambda>d. category (snd d)) (acknowledged w 0 ?xs)"
      by blast
    then show ?thesis
      by (intro conjI exI [of _ docs]) (simp_all add: st that stored_docs_def)
  qed
  show ?thesis
    using st ms er loc cl by blast
qed

subsection \<open>A question creates no record (C4)\<close>

lemma handleSend_logs:
  assumes "accepted s"
  shows "statuses (handleSend w s) =
           statuses (snd (try_block w (input s) (selectedImage s) (started w s))) @ [idle]"
    and "requests (handleSend w s) =
           requests (snd (try_block w (input s) (selectedImage s) (started w s)))"
    and "store (handleSend w s) =
           store (snd (try_block w (input s) (selectedImage s) (started w s)))"
  by (simp_all add: handleSend_accepted [OF assms] statuses_simps requests_simps kept_simps
      split: prod.splits completion.splits)

lemma after_vision_logs:
  "prefix (statuses s1)
     (statuses (snd (if trim t \<noteq> []
        then (if isQuestion t then (Return, summary_step w t s1)
              else ledger_step w t i (v @ fst (parsing_step w t s1))
                     (snd (parsing_step w t s1)))
        else ledger_step w t i v s1))) \<and>
   prefix (requests s1)
     (requests (snd (if trim t \<noteq> []
        then (if isQuestion t then (Return, summary_step w t s1)
              else ledger_step w t i (v @ fst (parsing_step w t s1))
                     (snd (parsing_step w t s1)))
        else ledger_step w t i v s1)))"
proof -
  have l: "prefix (statuses s1) (statuses (snd (ledger_step w t i xs s2))) \<and>
           prefix (requests s1) (requests (snd (ledger_step w t i xs s2)))"
    if "prefix (statuses s1) (statuses s2)" "prefix (requests s1) (requests s2)" for xs s2
    using that ledger_step_logs [where s = s2 and w = w and t = t and i = i and xs = xs]
    by (auto intro: prefix_order.trans)
  have p: "prefix (statuses s1) (statuses (snd (parsing_step w t s1)))"
    "prefix (requests s1) (requests (snd (parsing_step w t s1)))"
    by (simp_all add: statuses_simps requests_simps)
  show ?thesis
    using l p by (simp add: statuses_simps requests_simps)
qed

text \<open>
  C4. A turn whose text is a question leaves the backend as it was. If an image is
  attached and can be read, the vision agent is run on it first: the statuses set are
  \<open>vision\<close>, \<open>summary\<close>, \<open>idle\<close>, \<open>idle\<close>, and the requests are those of the vision
  agent followed by those of the summary agent. For any accepted turn with an image,
  question or not, \<open>vision\<close> is the first status set and the vision agent's requests
  come first: the classification decides about the text only.
\<close>

theorem question_creates_no_record:
  "(accepted s \<and> trim (input s) \<noteq> [] \<and> isQuestion (input s) \<longrightarrow>
      store (handleSend w s) = store s \<and>
      (\<forall>f b. selectedImage s = Some f \<and> fileToBase64 w f = Some b \<longrightarrow>
         statuses (handleSend w s) = statuses s @ [vision, summary, idle, idle] \<and>
         requests (handleSend w s) =
           requests s @ snd (runVisionAgent w b (file_type f)) @
           snd (runSummaryAgent w (input s) (expenses s)))) \<and>
   (accepted s \<longrightarrow>
      (\<forall>f. selectedImage s = Some f \<longrightarrow>
         prefix (statuses s @ [vision]) (statuses (handleSend w s)) \<and>
         (\<forall>b. fileToBase64 w f = Some b \<longrightarrow>
            prefix (requests s @ snd (runVisionAgent w b (file_type f)))
              (requests (handleSend w s)))))"
proof -
  let ?s0 = "started w s"
  have a: "store (handleSend w s) = store s"
    if "accepted s" "trim (input s) \<noteq> []" "isQuestion (input s)"
  proof -
    have "store (snd (try_block w (input s) (selectedImage s) ?s0)) = store ?s0"
      using that(2,3) by (rule try_block_question)
    then show ?thesis
      by (simp add: handleSend_logs(3) [OF that(1)] started_simps)
  qed
  have b: "statuses (handleSend w s) = statuses s @ [vision, summary, idle, idle] \<and>
           requests (handleSend w s) =
             requests s @ snd (runVisionAgent w b (file_type f)) @
             snd (runSummaryAgent w (input s) (expenses s))"
    if "accepted s" "trim (input s) \<noteq> []" "isQuestion (input s)"
      "selectedImage s = Some f" "fileToBase64 w f = Some b" for f b
    using that
    by (simp add: handleSend_logs [OF that(1)] try_block_unfold vision_step_Some
        statuses_simps requests_simps started_simps kept_simps)
  have rest: "prefix (statuses s @ [vision]) (statuses (handleSend w s)) \<and>
              prefix (requests s @ snd (runVisionAgent w b (file_type f)))
                (requests (handleSend w s))"
    if "accepted s" "selectedImage s = Some f" "fileToBase64 w f = Some b" for f b
  proof -
    let ?v = "fst (runVisionAgent w b (file_type f))"
    let ?s1 = "sent (snd (runVisionAgent w b (file_type f))) (setAgentStatus vision ?s0)"
    define X where "X =
      (if trim (input s) \<noteq> []
        then (if isQuestion (input s) then (Return, summary_step w (input s) ?s1)
              else ledger_step w (input s) (selectedImage s)
                     (?v @ fst (parsing_step w (input s) ?s1))
                     (snd (parsing_step w (input s) ?s1)))
        else ledger_step w (input s) (selectedImage s) ?v ?s1)"
    have tb: "try_block w (input s) (selectedImage s) ?s0 = X"
      by (simp add: try_block_unfold vision_step_Some that X_def)
    have s1: "statuses ?s1 = statuses s @ [vision]"
      "requests ?s1 = requests s @ snd (runVisionAgent w b (file_type f))"
      by (simp_all add: statuses_simps requests_simps started_simps)
    have "prefix (statuses ?s1) (statuses (snd X)) \<and> prefix (requests ?s1) (requests (snd X))"
      unfolding X_def by (rule after_vision_logs)
    then have "prefix (statuses s @ [vision]) (statuses (snd X) @ [idle]) \<and>
               prefix (requests s @ snd (runVisionAgent w b (file_type f))) (requests (snd X))"
      by (simp add: s1 prefix_prefix)
    then show ?thesis
      by (simp add: handleSend_logs [OF that(1)] tb)
  qed
  have c: "prefix (statuses s @ [vision]) (statuses (handleSend w s))"
    if "accepted s" "selectedImage s = Some f" for f
  proof (cases "fileToBase64 w f")
    case None
    then show ?thesis
      using that
      by (simp add: handleSend_logs [OF that(1)] try_block_unfold vision_step_Some
          statuses_simps started_simps)
  next
    case (Some b)
    then show ?thesis
      using rest [OF that Some] by simp
  qed
  have d: "prefix (requests s @ snd (runVisionAgent w b (file_type f)))
             (requests (handleSend w s))"
    if "accepted s" "selectedImage s = Some f" "fileToBase64 w f = Some b" for f b
    using rest [OF that] by simp
  show ?thesis
    using a b c d by blast
qed

subsection \<open>An empty candidate list (C5)\<close>

text \<open>
  What the code does when step C is reached with no candidate: nothing is stored; an
  image without text gets the first message, a text without image the second, and a text
  with an image gets no reply.
\<close>

lemma nothing_found:
  assumes "reaches_ledger w s" "extracted w s = []"
  shows "store (handleSend w s) = store s"
    and "messages (handleSend w s) =
       messages s @ user_message w s #
         (if input s = [] \<and> selectedImage s \<noteq> None
          then [botMessage w ''I couldn't identify any clear transactions in that image.'' None]
          else if input s \<noteq> [] \<and> selectedImage s = None
          then [botMessage w ''I couldn't detect a valid expense transaction.'' None]
          else [])"
proof -
  from ledger_pass [OF assms(1)] obtain s2 where
    s2: "store s2 = store s" "user s2 = user s" "messages s2 = messages s @ [user_message w s]"
    and h: "handleSend w s =
       finally_block (case ledger_step w (input s) (selectedImage s) (extracted w s) s2 of
                        (Throw, s4) \<Rightarrow> catch_block w s4
                      | (c, s4) \<Rightarrow> s4)"
    by blast
  show "store (handleSend w s) = store s"
    by (simp add: h assms(2) ledger_step_empty kept_simps s2)
  show "messages (handleSend w s) =
       messages s @ user_message w s #
         (if input s = [] \<and> selectedImage s \<noteq> None
          then [botMessage w ''I couldn't identify any clear transactions in that image.'' None]
          else if input s \<noteq> [] \<and> selectedImage s = None
          then [botMessage w ''I couldn't detect a valid expense transaction.'' None]
          else [])"
    by (simp add: h assms(2) ledger_step_empty kept_simps s2)
qed

lemma lunch_with_receipt_facts:
  "accepted lunch_with_receipt" "trim (input lunch_with_receipt) \<noteq> []"
  "\<not> isQuestion (input lunch_with_receipt)" "reaches_ledger no_key lunch_with_receipt"
  "extracted no_key lunch_with_receipt = []"
  by (simp_all add: lunch_with_receipt_def initial_def accepted_def reaches_ledger_def
      extracted_def no_key_def receipt_def runVisionAgent_def runParsingAgent_def
      trim_eval isQuestion_def lead_words_def toLowerChar_def upper_lower_def)

text \<open>
  C5. The text \<open>lunch\<close> is sent with a receipt attached and no API key is set: both
  agents return the empty list. The pass appends the user's message and nothing else;
  there is no reply. Nothing is stored.
\<close>

theorem nothing_found_with_text_and_image:
  "extracted no_key lunch_with_receipt = [] \<and>
   messages (handleSend no_key lunch_with_receipt) =
     messages lunch_with_receipt @ [user_message no_key lunch_with_receipt] \<and>
   store (handleSend no_key lunch_with_receipt) = store lunch_with_receipt"
  using nothing_found [OF lunch_with_receipt_facts(4,5)]
  by (simp add: lunch_with_receipt_facts(5)) (simp add: lunch_with_receipt_def)

subsection \<open>No API key (C10)\<close>

text \<open>
  What holds without an API key: the parsing agent and the vision agent return the empty
  list and send no request; every accepted turn whose text is not a question leaves the
  backend as it was and sends no request; and when no image is attached the reply is the
  fixed message.
\<close>

lemma no_api_key_commits_nothing:
  "\<not> API_KEY w \<longrightarrow>
     runParsingAgent w t m = ([], []) \<and> runVisionAgent w b mt = ([], []) \<and>
     (accepted s \<and> trim (input s) \<noteq> [] \<and> \<not> isQuestion (input s) \<longrightarrow>
        store (handleSend w s) = store s \<and> requests (handleSend w s) = requests s \<and>
        (selectedImage s = None \<longrightarrow>
           messages (handleSend w s) =
             messages s @ [user_message w s,
               botMessage w ''I couldn't detect a valid expense transaction.'' None]))"
proof (intro impI conjI)
  assume nk: "\<not> API_KEY w"
  show "runParsingAgent w t m = ([], [])"
    using nk by (simp add: runParsingAgent_def)
  show "runVisionAgent w b mt = ([], [])"
    using nk by (simp add: runVisionAgent_def)
  have agents: "runParsingAgent w t' m' = ([], [])" "runVisionAgent w b' mt' = ([], [])"
    for t' m' b' mt'
    using nk by (simp_all add: runParsingAgent_def runVisionAgent_def)
  assume a: "accepted s \<and> trim (input s) \<noteq> [] \<and> \<not> isQuestion (input s)"
  then have acc: "accepted s" and tr: "trim (input s) \<noteq> []" and nq: "\<not> isQuestion (input s)"
    by simp_all
  have e: "extracted w s = []"
    by (simp add: extracted_def agents split: option.splits)
  show "requests (handleSend w s) = requests s"
    using tr nq
    by (cases "selectedImage s")
      (auto simp: handleSend_logs(2) [OF acc] try_block_unfold vision_step_None
        vision_step_Some requests_simps ledger_step_logs(2) agents started_simps
        split: option.splits)
  show "store (handleSend w s) = store s"
  proof (cases "reaches_ledger w s")
    case True
    then show ?thesis using e by (rule nothing_found(1))
  next
    case False
    with acc nq obtain f where "selectedImage s = Some f" "fileToBase64 w f = None"
      by (auto simp: reaches_ledger_def split: option.splits)
    then show ?thesis
      by (simp add: handleSend_logs(3) [OF acc] try_block_unfold vision_step_Some
          kept_simps started_simps)
  qed
  show "messages (handleSend w s) =
             messages s @ [user_message w s,
               botMessage w ''I couldn't detect a valid expense transaction.'' None]"
    if "selectedImage s = None"
  proof -
    have "reaches_ledger w s"
      using acc nq that by (simp add: reaches_ledger_def)
    from nothing_found(2) [OF this e] show ?thesis
      using that trim_nonempty [OF tr] by simp
  qed
qed

lemma lunch_facts:
  "accepted lunch" "trim (input lunch) \<noteq> []" "\<not> isQuestion (input lunch)"
  "selectedImage lunch = None" "store lunch = LocalStorage Absent"
  by (simp_all add: lunch_def initial_def accepted_def trim_eval isQuestion_def
      lead_words_def toLowerChar_def upper_lower_def)

lemma no_api_key_text_only:
  "\<not> API_KEY no_key \<and> accepted lunch \<and> trim (input lunch) \<noteq> [] \<and>
   \<not> isQuestion (input lunch) \<and> selectedImage lunch = None \<and>
   store (handleSend no_key lunch) = LocalStorage Absent \<and>
   messages (handleSend no_key lunch) =
     messages lunch @ [user_message no_key lunch,
       botMessage no_key ''I couldn't detect a valid expense transaction.'' None]"
proof -
  have nk: "\<not> API_KEY no_key"
    by (simp add: no_key_def)
  from no_api_key_commits_nothing [of no_key _ _ _ _ lunch] nk lunch_facts
  show ?thesis
    by simp
qed

text \<open>
  C10. No API key is set and the text \<open>lunch\<close>, which is not a question, is sent with a
  receipt attached. No request is sent and nothing is stored, but the fixed message is not
  given: after the pass the messages are the introduction and the user's message, and no
  message has the text of the fixed reply.
\<close>

theorem text_with_image_gets_no_reply:
  "\<not> API_KEY no_key \<and> accepted lunch_with_receipt \<and>
   trim (input lunch_with_receipt) \<noteq> [] \<and> \<not> isQuestion (input lunch_with_receipt) \<and>
   requests (handleSend no_key lunch_with_receipt) = [] \<and>
   store (handleSend no_key lunch_with_receipt) = LocalStorage Absent \<and>
   map msg_type (messages (handleSend no_key lunch_with_receipt)) = [Bot, User] \<and>
   msg_text (last (messages (handleSend no_key lunch_with_receipt))) = ''lunch'' \<and>
   ''I couldn't detect a valid expense transaction.'' \<notin>
     set (map msg_text (messages (handleSend no_key lunch_with_receipt)))"
proof -
  have nk: "\<not> API_KEY no_key"
    by (simp add: no_key_def)
  have m: "messages (handleSend no_key lunch_with_receipt) =
     messages lunch_with_receipt @ [user_message no_key lunch_with_receipt]"
    using nothing_found(2) [OF lunch_with_receipt_facts(4,5)]
    by (simp add: lunch_with_receipt_def)
  have st: "store (handleSend no_key lunch_with_receipt) = LocalStorage Absent"
    using nothing_found(1) [OF lunch_with_receipt_facts(4,5)]
    by (simp add: lunch_with_receipt_def initial_def)
  have rq: "requests (handleSend no_key lunch_with_receipt) = []"
    using no_api_key_commits_nothing [of no_key _ _ _ _ lunch_with_receipt] nk
      lunch_with_receipt_facts(1-3)
    by (simp add: lunch_with_receipt_def initial_def)
  show ?thesis
    using nk lunch_with_receipt_facts(1-3) st rq
    by (simp add: m) (simp add: lunch_with_receipt_def initial_def user_message_def)
qed

subsection \<open>The statements on concrete passes\<close>

theorem handleSend_restores_idle_witness:
  "accepted cloud_tea_and_bus \<and>
   \<not> isProcessing (handleSend partly_rejected cloud_tea_and_bus) \<and>
   agentStatus (handleSend partly_rejected cloud_tea_and_bus) = idle \<and>
   statuses (handleSend partly_rejected cloud_tea_and_bus) = [parsing, ledger, idle] \<and>
   msg_text (last (messages (handleSend partly_rejected cloud_tea_and_bus))) =
     ''System encountered an error processing your request.'' \<and>
   map fst (stored_docs ''local_user'' (store (handleSend partly_rejected cloud_tea_and_bus))) =
     [''doc-b'']"
proof -
  have acc: "accepted cloud_tea_and_bus"
    by (simp add: cloud_tea_and_bus_def initial_def accepted_def trim_eval)
  have keep: "trim ''tea 10, bus 20'' = ''tea 10, bus 20''"
    by (simp add: trim_eval)
  have qn: "\<not> isQuestion ''tea 10, bus 20''"
    by (simp add: isQuestion_def lead_words_def toLowerChar_def upper_lower_def)
  have ev: "statuses (handleSend partly_rejected cloud_tea_and_bus) = [parsing, ledger, idle] \<and>
   msg_text (last (messages (handleSend partly_rejected cloud_tea_and_bus))) =
     ''System encountered an error processing your request.'' \<and>
   map fst (stored_docs ''local_user'' (store (handleSend partly_rejected cloud_tea_and_bus))) =
     [''doc-b'']"
    using keep qn
    by (simp add: handleSend_def cloud_tea_and_bus_def initial_def accepted_def
        try_block_def vision_step_def parsing_step_def ledger_step_def runParsingAgent_def
        partly_rejected_def with_key_def addExpense_def addDoc_def setAgentStatus_def
        sent_def post_def clearImage_def catch_block_def finally_block_def botMessage_def
        stored_docs_def tea_def bus_def Let_def)
  from handleSend_restores_idle [of cloud_tea_and_bus partly_rejected] acc ev
  show ?thesis
    by simp
qed

lemma question_with_receipt_facts:
  "accepted question_with_receipt" "trim (input question_with_receipt) \<noteq> []"
  "isQuestion (input question_with_receipt)" "selectedImage question_with_receipt = Some receipt"
  "fileToBase64 with_key receipt = Some ''/9j/4AAQSkZJRg==''"
  "store question_with_receipt = LocalStorage Absent"
  "statuses question_with_receipt = []" "requests question_with_receipt = []"
  "expenses question_with_receipt = []"
  by (simp_all add: question_with_receipt_def initial_def accepted_def trim_eval
      isQuestion_def lead_words_def toLowerChar_def upper_lower_def with_key_def receipt_def)

theorem question_creates_no_record_witness:
  "accepted question_with_receipt \<and> trim (input question_with_receipt) \<noteq> [] \<and>
   isQuestion (input question_with_receipt) \<and>
   fst (runVisionAgent with_key ''/9j/4AAQSkZJRg=='' ''image/jpeg'') = [tea] \<and>
   store (handleSend with_key question_with_receipt) = LocalStorage Absent \<and>
   statuses (handleSend with_key question_with_receipt) = [vision, summary, idle, idle] \<and>
   requests (handleSend with_key question_with_receipt) =
     [VisionRequest ''/9j/4AAQSkZJRg=='' ''image/jpeg'',
      SummaryRequest ''How much did I spend on food?'' []]"
proof -
  have r: "runVisionAgent with_key ''/9j/4AAQSkZJRg=='' ''image/jpeg'' =
             ([tea], [VisionRequest ''/9j/4AAQSkZJRg=='' ''image/jpeg''])"
    "runSummaryAgent with_key ''How much did I spend on food?'' [] =
       (''You spent nothing on food.'', [SummaryRequest ''How much did I spend on food?'' []])"
    by (simp_all add: runVisionAgent_def runSummaryAgent_def with_key_def)
  have t: "file_type receipt = ''image/jpeg''" "input question_with_receipt = ''How much did I spend on food?''"
    by (simp_all add: receipt_def question_with_receipt_def)
  from question_creates_no_record [of question_with_receipt with_key]
    question_with_receipt_facts
  have "store (handleSend with_key question_with_receipt) = store question_with_receipt \<and>
     statuses (handleSend with_key question_with_receipt) =
       statuses question_with_receipt @ [vision, summary, idle, idle] \<and>
     requests (handleSend with_key question_with_receipt) =
       requests question_with_receipt @
       snd (runVisionAgent with_key ''/9j/4AAQSkZJRg=='' (file_type receipt)) @
       snd (runSummaryAgent with_key (input question_with_receipt)
              (expenses question_with_receipt))"
    by blast
  then show ?thesis
    using question_with_receipt_facts by (simp add: r t)
qed

lemma tea_and_bus_facts:
  "reaches_ledger with_key tea_and_bus" "extracted with_key tea_and_bus = [tea, bus]"
  "store tea_and_bus = LocalStorage Absent" "input tea_and_bus = ''tea 10, bus 20''"
  "uid_of tea_and_bus = ''local_user''"
  by (simp_all add: tea_and_bus_def initial_def reaches_ledger_def accepted_def extracted_def
      trim_eval isQuestion_def lead_words_def toLowerChar_def upper_lower_def
      with_key_def runParsingAgent_def uid_of_def)

theorem ledger_commits_every_candidate_witness:
  "reaches_ledger with_key tea_and_bus \<and> extracted with_key tea_and_bus = [tea, bus] \<and>
   map id' (stored ''local_user'' (store (handleSend with_key tea_and_bus))) =
     [Some ''id-'', Some ''id-i''] \<and>
   map item (stored ''local_user'' (store (handleSend with_key tea_and_bus))) =
     [''tea'', ''bus''] \<and>
   map amount (stored ''local_user'' (store (handleSend with_key tea_and_bus))) = [10, 20] \<and>
   msg_text (last (butlast (messages (handleSend with_key tea_and_bus)))) = ''tea 10, bus 20'' \<and>
   msg_type (last (messages (handleSend with_key tea_and_bus))) = Bot \<and>
   msg_text (last (messages (handleSend with_key tea_and_bus))) =
     ''Ledger updated. Total: '' @
     [CHR 0xC3, CHR 0xA2, CHR 0xE2, CHR 0x80, CHR 0x9A, CHR 0xC2, CHR 0xB9] @ '' 30'' \<and>
   msg_data (last (messages (handleSend with_key tea_and_bus))) = Some [tea, bus]"
proof -
  let ?H = "handleSend with_key tea_and_bus"
  have ne: "extracted with_key tea_and_bus \<noteq> []"
    by (simp add: tea_and_bus_facts)
  have c: "commit_all with_key ''local_user'' ''tea 10, bus 20'' 0 [tea, bus] (LocalStorage Absent) =
    (True, LocalStorage (Saved
       [tea\<lparr>id' := Some ''id-'', originalText := Some ''tea 10, bus 20'',
            createdAt := Some \<lparr>seconds = 1700000000, nanoseconds = 0, toMillis = None\<rparr>\<rparr>,
        bus\<lparr>id' := Some ''id-i'', originalText := Some ''tea 10, bus 20'',
            createdAt := Some \<lparr>seconds = 1700000000, nanoseconds = 0,
                               toMillis = Some ClockMillis\<rparr>\<rparr>]))"
    by (simp add: addExpense_def getLocalData_def saveLocalData_def json_def with_key_def
        tea_def bus_def)
  have tot: "toLocaleString with_key (foldl (\<lambda>a e. a + amount e) 0 [tea, bus]) = ''30''"
    by (simp add: with_key_def tea_def bus_def)
  from ledger_commits_every_candidate [OF tea_and_bus_facts(1) ne, of "''local_user''"]
  have a: "store ?H =
       snd (commit_all with_key (uid_of tea_and_bus) (source_text (input tea_and_bus)) 0
              (extracted with_key tea_and_bus) (store tea_and_bus))"
    and b: "fst (commit_all with_key (uid_of tea_and_bus) (source_text (input tea_and_bus)) 0
              (extracted with_key tea_and_bus) (store tea_and_bus)) \<longrightarrow>
        butlast (messages ?H) = messages tea_and_bus @ [user_message with_key tea_and_bus] \<and>
        msg_type (last (messages ?H)) = Bot \<and>
        msg_text (last (messages ?H)) =
          ''Ledger updated. Total: '' @ CURRENCY_SYMBOL @ '' '' @
          toLocaleString with_key
            (foldl (\<lambda>a e. a + amount e) 0 (extracted with_key tea_and_bus)) \<and>
        msg_data (last (messages ?H)) = Some (extracted with_key tea_and_bus)"
    by blast+
  have src: "source_text ''tea 10, bus 20'' = ''tea 10, bus 20''"
    by (simp add: source_text_def)
  have st: "store ?H = snd
     (commit_all with_key ''local_user'' ''tea 10, bus 20'' 0 [tea, bus] (LocalStorage Absent))"
    using a by (simp only: tea_and_bus_facts src)
  have ms: "butlast (messages ?H) = messages tea_and_bus @ [user_message with_key tea_and_bus]"
    "msg_type (last (messages ?H)) = Bot"
    "msg_text (last (messages ?H)) =
       ''Ledger updated. Total: '' @ CURRENCY_SYMBOL @ '' '' @ ''30''"
    "msg_data (last (messages ?H)) = Some [tea, bus]"
    using b by (simp_all only: tea_and_bus_facts src c fst_conv simp_thms tot)
  show ?thesis
    unfolding st c ms
    by (simp add: tea_and_bus_facts stored_def getLocalData_def json_def tea_def bus_def
        user_message_def CURRENCY_SYMBOL_def)
qed

end
